theory Spec2Isabelle
  imports Complex_Main
begin

section \<open>Numbers, vectors and cosine similarity\<close>

text \<open>
  Python floats are modelled as reals: rounding is outside the model. The one float
  value with no real counterpart that the code can produce is the result of numpy's
  \<^verbatim>\<open>0.0 / 0.0\<close>, which is \<^verbatim>\<open>nan\<close> (numpy warns and does not raise). It is kept as a value
  of its own, so that a division by zero of the source is visible in the model.
\<close>

datatype sim = Num real | NaN

datatype error = EmbeddingFailure | StoreUnavailable | ValueError

text \<open>Comparisons with nan are all false; arithmetic with nan gives nan.\<close>

fun sim_gt :: "sim \<Rightarrow> real \<Rightarrow> bool" where
  "sim_gt (Num x) t = (x > t)"
| "sim_gt NaN t = False"

fun sim_lt :: "sim \<Rightarrow> sim \<Rightarrow> bool" where
  "sim_lt (Num x) (Num y) = (x < y)"
| "sim_lt _ _ = False"

fun sim_scale :: "sim \<Rightarrow> real \<Rightarrow> sim" where
  "sim_scale (Num x) c = Num (x * c)"
| "sim_scale NaN c = NaN"

text \<open>Python's \<^verbatim>\<open>max(a, b)\<close>: \<^verbatim>\<open>b\<close> when \<^verbatim>\<open>b > a\<close>, else \<^verbatim>\<open>a\<close>.\<close>

definition py_max :: "sim \<Rightarrow> sim \<Rightarrow> sim" where
  "py_max a b = (if sim_lt a b then b else a)"

definition np_dot :: "real list \<Rightarrow> real list \<Rightarrow> real" where
  "np_dot a b = sum_list (map (\<lambda>(x, y). x * y) (zip a b))"

definition linalg_norm :: "real list \<Rightarrow> real" where
  "linalg_norm a = sqrt (np_dot a a)"

text \<open>
  \<^verbatim>\<open>np.dot(a, b) / (np.linalg.norm(a) * np.linalg.norm(b))\<close>. \<^verbatim>\<open>np.dot\<close> raises
  ValueError on vectors of different shapes. A zero denominator means one vector is
  zero, hence the numerator is zero too and numpy returns nan. The source has no guard
  for it.
\<close>

definition cosine_similarity :: "real list \<Rightarrow> real list \<Rightarrow> error + sim" where
  "cosine_similarity a b =
     (if length a \<noteq> length b then Inl ValueError
      else if linalg_norm a * linalg_norm b = 0 then Inr NaN
      else Inr (Num (np_dot a b / (linalg_norm a * linalg_norm b))))"

section \<open>Memory nodes and the memory system\<close>

type_synonym ref = nat

record MemoryNode =
  node_id :: string
  content :: "(string \<times> string) list"
  embedding :: "real list option"
  timestamp :: int
  access_count :: int
  last_accessed :: int
  importance_score :: real
  decay_rate :: real
  connections :: "(string \<times> real) list"
  metadata :: "(string \<times> string option) list"

text \<open>Times are microseconds since the epoch, as a \<^verbatim>\<open>datetime\<close> resolves them.\<close>

record MemoryController =
  working_memory_size :: nat
  short_term_size :: nat
  consolidation_interval :: int
  last_consolidation :: int

record LongTermMemory =
  ltm_id :: string
  ltm_content :: "(string \<times> string) list"
  ltm_embedding :: "real list option"
  ltm_importance_score :: real
  ltm_access_count :: int
  ltm_last_accessed :: int
  ltm_created_at :: int
  ltm_metadata :: "(string \<times> string option) list"

record SenderProfile =
  total_messages :: int
  last_interaction :: int
  profile_importance_score :: real

text \<open>
  Node objects are shared between the deque, the dictionary and the lists built from
  them, and are mutated in place, so the state has an explicit store of objects:
  \<open>heap\<close> maps a reference to the object it denotes and \<open>next_ref\<close> is the next unused
  reference. \<open>working_memory\<close> is the deque (left end first), \<open>short_term_memory\<close> the
  dictionary in insertion order, \<open>memory_graph\<close> the \<^verbatim>\<open>defaultdict(list)\<close> (a missing key
  reads as the empty list). \<open>long_term_table\<close> and \<open>sender_profiles\<close> are the committed
  rows of the database the system writes to.
\<close>

record system =
  heap :: "ref \<Rightarrow> MemoryNode"
  next_ref :: ref
  memory_controller :: MemoryController
  working_memory :: "ref list"
  short_term_memory :: "(string \<times> ref) list"
  memory_graph :: "string \<Rightarrow> (string \<times> real) list"
  long_term_table :: "LongTermMemory list"
  sender_profiles :: "string \<Rightarrow> SenderProfile option"

definition working_maxlen :: nat where
  "working_maxlen = 20"

definition empty_node :: MemoryNode where
  "empty_node = \<lparr>node_id = [], content = [], embedding = None, timestamp = 0,
     access_count = 0, last_accessed = 0, importance_score = 0.5, decay_rate = 0.1,
     connections = [], metadata = []\<rparr>"

text \<open>\<^verbatim>\<open>MemoryController()\<close> and \<^verbatim>\<open>CognitiveMemorySystem.__init__\<close>.\<close>

definition new_controller :: "int \<Rightarrow> MemoryController" where
  "new_controller now = \<lparr>working_memory_size = 20, short_term_size = 100,
     consolidation_interval = 300, last_consolidation = now\<rparr>"

definition init :: "int \<Rightarrow> system" where
  "init now = \<lparr>heap = (\<lambda>_. empty_node), next_ref = 0,
     memory_controller = new_controller now, working_memory = [],
     short_term_memory = [], memory_graph = (\<lambda>_. []),
     long_term_table = [], sender_profiles = (\<lambda>_. None)\<rparr>"

text \<open>\<^verbatim>\<open>deque(maxlen=n).append(x)\<close>: when the deque is full the leftmost item is dropped.\<close>

definition deque_append :: "nat \<Rightarrow> 'a list \<Rightarrow> 'a \<Rightarrow> 'a list" where
  "deque_append maxlen xs x = drop (length (xs @ [x]) - maxlen) (xs @ [x])"

section \<open>Association links\<close>

text \<open>The four appends of the loop body of \<^verbatim>\<open>_update_memory_connections\<close>, in order.\<close>

definition add_link :: "ref \<Rightarrow> ref \<Rightarrow> real \<Rightarrow> system \<Rightarrow> system" where
  "add_link new m c s =
     (let h = heap s;
          nid = node_id (h new);
          mid = node_id (h m);
          h1 = h(new := (h new)\<lparr>connections := connections (h new) @ [(mid, c)]\<rparr>);
          h2 = h1(m := (h1 m)\<lparr>connections := connections (h1 m) @ [(nid, c)]\<rparr>);
          g = memory_graph s;
          g1 = g(nid := g nid @ [(mid, c)]);
          g2 = g1(mid := g1 mid @ [(nid, c)])
      in s\<lparr>heap := h2, memory_graph := g2\<rparr>)"

text \<open>
  One iteration of the loop over \<^verbatim>\<open>all_memories\<close>; the new node has embedding \<open>e\<close>.
  The error, if any, is the exception that leaves the loop.
\<close>

definition link_step :: "ref \<Rightarrow> real list \<Rightarrow> ref \<Rightarrow> system \<Rightarrow> error option \<times> system" where
  "link_step new e m s =
     (if node_id (heap s m) = node_id (heap s new) then (None, s)
      else case embedding (heap s m) of
        None \<Rightarrow> (None, s)
      | Some e' \<Rightarrow>
          (case cosine_similarity e e' of
             Inl err \<Rightarrow> (Some err, s)
           | Inr NaN \<Rightarrow> (None, s)
           | Inr (Num c) \<Rightarrow> (if c > 0.7 then (None, add_link new m c s) else (None, s))))"

fun link_loop :: "ref \<Rightarrow> real list \<Rightarrow> ref list \<Rightarrow> system \<Rightarrow> error option \<times> system" where
  "link_loop new e [] s = (None, s)"
| "link_loop new e (m # ms) s =
     (case link_step new e m s of
        (Some err, s') \<Rightarrow> (Some err, s')
      | (None, s') \<Rightarrow> link_loop new e ms s')"

definition update_memory_connections :: "ref \<Rightarrow> system \<Rightarrow> error option \<times> system" where
  "update_memory_connections new s =
     (case embedding (heap s new) of
        None \<Rightarrow> (None, s)
      | Some e \<Rightarrow> link_loop new e (working_memory s @ map snd (short_term_memory s)) s)"

section \<open>Storing an interaction\<close>

text \<open>
  \<open>emb\<close> is what the embedding service does on the text of the interaction: it raises
  (\<open>Inl\<close>) or returns an embedding, possibly \<^verbatim>\<open>None\<close>. \<open>now\<close> is the clock.
  The result is the exception raised or the reference of the node returned, with the
  state the call leaves behind.
\<close>

definition py_get :: "('k \<times> 'v) list \<Rightarrow> 'k \<Rightarrow> 'v option" where
  "py_get d k = map_of d k"

definition store_interaction ::
  "string \<Rightarrow> (string \<times> string) list \<Rightarrow> real \<Rightarrow> error + real list option \<Rightarrow> int \<Rightarrow> system
     \<Rightarrow> (error + ref) \<times> system" where
  "store_interaction message_id cont importance emb now s =
     (case emb of
        Inl err \<Rightarrow> (Inl err, s)
      | Inr e \<Rightarrow>
          (let node = \<lparr>node_id = ''mem_'' @ message_id, content = cont, embedding = e,
                 timestamp = now, access_count = 0, last_accessed = now,
                 importance_score = importance, decay_rate = 0.1, connections = [],
                 metadata = [(''message_id'', Some message_id),
                             (''sender'', py_get cont ''sender_email''),
                             (''type'', Some ''interaction'')]\<rparr>;
               r = next_ref s;
               s1 = s\<lparr>heap := (heap s)(r := node), next_ref := Suc r,
                      working_memory := deque_append working_maxlen (working_memory s) r\<rparr>
           in case update_memory_connections r s1 of
                (Some err, s2) \<Rightarrow> (Inl err, s2)
              | (None, s2) \<Rightarrow> (Inr r, s2)))"

section \<open>Consolidation\<close>

text \<open>
  \<^verbatim>\<open>(a - b).seconds\<close> of two datetimes: the seconds field of the normalised timedelta,
  between 0 and 86399 (whole days are a field of their own and are not counted).
\<close>

definition timedelta_seconds :: "int \<Rightarrow> int \<Rightarrow> int" where
  "timedelta_seconds a b = ((a - b) div 1000000) mod 86400"

text \<open>The two sort keys of \<^verbatim>\<open>MemoryController.consolidate_memories\<close>.\<close>

definition working_rank :: "int \<Rightarrow> MemoryNode \<Rightarrow> real" where
  "working_rank now m =
     importance_score m * 0.7
       + (1.0 / (1 + real_of_int (timedelta_seconds now (timestamp m)) / 3600)) * 0.3"

definition short_term_rank :: "MemoryNode \<Rightarrow> real" where
  "short_term_rank m = importance_score m * (1 - decay_rate m)"

text \<open>
  \<^verbatim>\<open>sorted(xs, key=k, reverse=True)\<close> on real keys: descending and stable (items with
  equal keys keep their order). The clock is read once for the whole sort.
\<close>

definition sorted_desc :: "('a \<Rightarrow> real) \<Rightarrow> 'a list \<Rightarrow> 'a list" where
  "sorted_desc k xs = sort_key (\<lambda>x. - k x) xs"

definition should_persist :: "MemoryNode \<Rightarrow> bool" where
  "should_persist m = (importance_score m > 0.7 \<or> access_count m > 5)"

text \<open>The loop that splits the tail of the sorted short-term list.\<close>

fun partition_tail :: "(ref \<Rightarrow> MemoryNode) \<Rightarrow> ref list \<Rightarrow> ref list \<times> string list
    \<Rightarrow> ref list \<times> string list" where
  "partition_tail h [] acc = acc"
| "partition_tail h (r # rs) (to_persist, to_remove) =
     (if should_persist (h r) then partition_tail h rs (to_persist @ [r], to_remove)
      else partition_tail h rs (to_persist, to_remove @ [node_id (h r)]))"

definition to_short_term :: "MemoryController \<Rightarrow> (ref \<Rightarrow> MemoryNode) \<Rightarrow> int \<Rightarrow> ref list \<Rightarrow> ref list" where
  "to_short_term ctrl h now working =
     drop (working_memory_size ctrl) (sorted_desc (\<lambda>r. working_rank now (h r)) working)"

definition short_term_sorted :: "MemoryController \<Rightarrow> (ref \<Rightarrow> MemoryNode) \<Rightarrow> int \<Rightarrow> ref list \<Rightarrow> ref list
    \<Rightarrow> ref list" where
  "short_term_sorted ctrl h now working short_term =
     sorted_desc (\<lambda>r. short_term_rank (h r)) (short_term @ to_short_term ctrl h now working)"

text \<open>
  \<^verbatim>\<open>MemoryController.consolidate_memories\<close>: returns \<open>(to_persist, to_remove)\<close> and the
  controller with \<open>last_consolidation\<close> set.
\<close>

definition consolidate_memories ::
  "MemoryController \<Rightarrow> (ref \<Rightarrow> MemoryNode) \<Rightarrow> int \<Rightarrow> ref list \<Rightarrow> ref list
     \<Rightarrow> (ref list \<times> string list) \<times> MemoryController" where
  "consolidate_memories ctrl h now working short_term =
     (partition_tail h
        (drop (short_term_size ctrl) (short_term_sorted ctrl h now working short_term)) ([], []),
      ctrl\<lparr>last_consolidation := now\<rparr>)"

text \<open>
  The database session. \<^verbatim>\<open>get_db_session\<close> is not part of the sources at hand; the block
  \<^verbatim>\<open>async with get_db_session() as session\<close> is read with Python's meaning for a context
  manager that does not swallow exceptions: an exception raised inside leaves the block
  and the function, and nothing added to the session is committed. Where the database
  fails is a parameter: on opening the session, on the first \<^verbatim>\<open>execute\<close>, or on
  \<^verbatim>\<open>commit\<close>.
\<close>

datatype db_failure = FailOpen | FailExecute | FailCommit

definition truthy :: "string option option \<Rightarrow> string option" where
  "truthy v = (case v of Some (Some x) \<Rightarrow> (if x = [] then None else Some x) | _ \<Rightarrow> None)"

definition ltm_of :: "MemoryNode \<Rightarrow> LongTermMemory" where
  "ltm_of m = \<lparr>ltm_id = node_id m, ltm_content = content m, ltm_embedding = embedding m,
     ltm_importance_score = importance_score m, ltm_access_count = access_count m,
     ltm_last_accessed = last_accessed m, ltm_created_at = timestamp m,
     ltm_metadata = metadata m\<rparr>"

definition nudge_profile :: "int \<Rightarrow> SenderProfile \<Rightarrow> SenderProfile" where
  "nudge_profile now p = p\<lparr>total_messages := total_messages p + 1, last_interaction := now,
     profile_importance_score := min 1.0 (profile_importance_score p + 0.01)\<rparr>"

text \<open>
  \<^verbatim>\<open>_persist_to_long_term\<close> on the pending rows and profiles of the session.
\<close>

definition persist_to_long_term ::
  "db_failure option \<Rightarrow> int \<Rightarrow> MemoryNode
     \<Rightarrow> LongTermMemory list \<times> (string \<Rightarrow> SenderProfile option)
     \<Rightarrow> error + LongTermMemory list \<times> (string \<Rightarrow> SenderProfile option)" where
  "persist_to_long_term db now m pending =
     (case pending of (rows, profiles) \<Rightarrow>
        (case truthy (py_get (metadata m) ''sender'') of
           None \<Rightarrow> Inr (rows @ [ltm_of m], profiles)
         | Some sender_email \<Rightarrow>
             if db = Some FailExecute then Inl StoreUnavailable
             else (case profiles sender_email of
                     None \<Rightarrow> Inr (rows @ [ltm_of m], profiles)
                   | Some p \<Rightarrow>
                       Inr (rows @ [ltm_of m], profiles(sender_email \<mapsto> nudge_profile now p)))))"

fun persist_all ::
  "db_failure option \<Rightarrow> int \<Rightarrow> (ref \<Rightarrow> MemoryNode) \<Rightarrow> ref list
     \<Rightarrow> LongTermMemory list \<times> (string \<Rightarrow> SenderProfile option)
     \<Rightarrow> error + LongTermMemory list \<times> (string \<Rightarrow> SenderProfile option)" where
  "persist_all db now h [] pending = Inr pending"
| "persist_all db now h (r # rs) pending =
     (case persist_to_long_term db now (h r) pending of
        Inl err \<Rightarrow> Inl err
      | Inr pending' \<Rightarrow> persist_all db now h rs pending')"

text \<open>\<^verbatim>\<open>d.pop(k, None)\<close> for each key of a list.\<close>

definition dict_pop :: "'k \<Rightarrow> ('k \<times> 'v) list \<Rightarrow> ('k \<times> 'v) list" where
  "dict_pop k d = filter (\<lambda>kv. fst kv \<noteq> k) d"

definition pop_all :: "'k list \<Rightarrow> ('k \<times> 'v) list \<Rightarrow> ('k \<times> 'v) list" where
  "pop_all ks d = foldl (\<lambda>d k. dict_pop k d) d ks"

text \<open>\<^verbatim>\<open>CognitiveMemorySystem._consolidate_memories\<close>.\<close>

definition consolidate_pass :: "int \<Rightarrow> db_failure option \<Rightarrow> system \<Rightarrow> error option \<times> system" where
  "consolidate_pass now db s =
     (case consolidate_memories (memory_controller s) (heap s) now
             (working_memory s) (map snd (short_term_memory s)) of
        ((to_persist, to_remove), ctrl) \<Rightarrow>
          (let s1 = s\<lparr>memory_controller := ctrl\<rparr> in
           if db = Some FailOpen then (Some StoreUnavailable, s1)
           else case persist_all db now (heap s1) to_persist
                       (long_term_table s1, sender_profiles s1) of
                  Inl err \<Rightarrow> (Some err, s1)
                | Inr (rows, profiles) \<Rightarrow>
                    (let s2 = s1\<lparr>short_term_memory := pop_all to_remove (short_term_memory s1)\<rparr> in
                     if db = Some FailCommit then (Some StoreUnavailable, s2)
                     else (None, s2\<lparr>long_term_table := rows, sender_profiles := profiles\<rparr>))))"

section \<open>Retrieval\<close>

text \<open>Python's \<^verbatim>\<open>xs[:n]\<close> for an integer \<open>n\<close>: a negative \<open>n\<close> counts from the end.\<close>

definition py_take :: "int \<Rightarrow> 'a list \<Rightarrow> 'a list" where
  "py_take n xs = (if n \<ge> 0 then take (nat n) xs else take (length xs - nat (- n)) xs)"

text \<open>
  \<^verbatim>\<open>xs.sort(key=k, reverse=True)\<close> on float keys that may be nan: a stable descending
  insertion sort with Python's comparison. Without a nan key this is the order
  \<^verbatim>\<open>list.sort\<close> gives. With a nan key the order \<^verbatim>\<open>list.sort\<close> gives depends on the
  details of its merge strategy; the model fixes one order, and no result below depends on
  which.
\<close>

fun insort_desc :: "('a \<Rightarrow> sim) \<Rightarrow> 'a \<Rightarrow> 'a list \<Rightarrow> 'a list" where
  "insort_desc k x [] = [x]"
| "insort_desc k x (y # ys) =
     (if sim_lt (k x) (k y) then y # insort_desc k x ys else x # y # ys)"

definition sort_sim_desc :: "('a \<Rightarrow> sim) \<Rightarrow> 'a list \<Rightarrow> 'a list" where
  "sort_sim_desc k xs = foldr (insort_desc k) xs []"

text \<open>The candidate loops over the working and the short-term memory.\<close>

fun gather :: "real list \<Rightarrow> (ref \<Rightarrow> MemoryNode) \<Rightarrow> ref list \<Rightarrow> (ref \<times> sim) list
    \<Rightarrow> error + (ref \<times> sim) list" where
  "gather q h [] candidates = Inr candidates"
| "gather q h (r # rs) candidates =
     (case embedding (h r) of
        None \<Rightarrow> gather q h rs candidates
      | Some e \<Rightarrow>
          (case cosine_similarity q e of
             Inl err \<Rightarrow> Inl err
           | Inr sm \<Rightarrow> gather q h rs (candidates @ [(r, sm)])))"

text \<open>
  The candidate loop over the rows read from the database: a row with a non-empty
  embedding becomes a new node object.
\<close>

definition node_of_ltm :: "int \<Rightarrow> LongTermMemory \<Rightarrow> real list \<Rightarrow> MemoryNode" where
  "node_of_ltm now l e = \<lparr>node_id = ltm_id l, content = ltm_content l, embedding = Some e,
     timestamp = ltm_created_at l, access_count = ltm_access_count l, last_accessed = now,
     importance_score = ltm_importance_score l, decay_rate = 0.1, connections = [],
     metadata = []\<rparr>"

fun gather_ltm :: "real list \<Rightarrow> int \<Rightarrow> LongTermMemory list \<Rightarrow> system \<times> (ref \<times> sim) list
    \<Rightarrow> error option \<times> system \<times> (ref \<times> sim) list" where
  "gather_ltm q now [] (s, candidates) = (None, s, candidates)"
| "gather_ltm q now (l # ls) (s, candidates) =
     (case ltm_embedding l of
        None \<Rightarrow> gather_ltm q now ls (s, candidates)
      | Some e \<Rightarrow>
          if e = [] then gather_ltm q now ls (s, candidates)
          else (case cosine_similarity q e of
                  Inl err \<Rightarrow> (Some err, s, candidates)
                | Inr sm \<Rightarrow>
                    gather_ltm q now ls
                      (s\<lparr>heap := (heap s)(next_ref s := node_of_ltm now l e),
                         next_ref := Suc (next_ref s)\<rparr>,
                       candidates @ [(next_ref s, sm)])))"

section \<open>Spreading activation\<close>

text \<open>A Python dictionary keeps insertion order; assigning to a present key keeps its place.\<close>

fun dict_set :: "('k \<times> 'v) list \<Rightarrow> 'k \<Rightarrow> 'v \<Rightarrow> ('k \<times> 'v) list" where
  "dict_set [] k v = [(k, v)]"
| "dict_set ((k', v') # d) k v = (if k' = k then (k, v) # d else (k', v') # dict_set d k v)"

text \<open>
  The loop over the connections of the node popped from the queue. \<open>st\<close> is the
  short-term dictionary, \<open>cur\<close> the activation of the popped node, \<open>d\<close> the decay factor;
  the loop updates the activation scores and appends to the queue.
\<close>

fun spread_links :: "(string \<times> ref) list \<Rightarrow> sim \<Rightarrow> real \<Rightarrow> (string \<times> real) list
    \<Rightarrow> (string \<times> sim) list \<times> (ref \<times> sim) list \<Rightarrow> (string \<times> sim) list \<times> (ref \<times> sim) list" where
  "spread_links st cur d [] (sc, q) = (sc, q)"
| "spread_links st cur d ((cid, strength) # ls) (sc, q) =
     (let spread = sim_scale (sim_scale cur strength) d in
      if sim_gt spread 0.1 then
        (case map_of sc cid of
           Some old \<Rightarrow> spread_links st cur d ls (dict_set sc cid (py_max old spread), q)
         | None \<Rightarrow>
             (case map_of st cid of
                Some r \<Rightarrow> spread_links st cur d ls (dict_set sc cid spread, q @ [(r, spread)])
              | None \<Rightarrow> spread_links st cur d ls (dict_set sc cid spread, q)))
      else spread_links st cur d ls (sc, q))"

lemma spread_links_queue:
  "spread_links st cur d ls (sc, q) = (sc', q') \<Longrightarrow> fst ` set q' \<subseteq> fst ` set q \<union> snd ` set st"
proof (induction ls arbitrary: sc q)
  case Nil
  then show ?case by auto
next
  case (Cons l ls)
  obtain cid strength where l: "l = (cid, strength)" by (cases l)
  show ?case
  proof (cases "sim_gt (sim_scale (sim_scale cur strength) d) 0.1")
    case False
    with Cons l show ?thesis by simp
  next
    case True
    show ?thesis
    proof (cases "map_of sc cid")
      case (Some old)
      with Cons True l show ?thesis by (simp add: Let_def)
    next
      case None
      show ?thesis
      proof (cases "map_of st cid")
        case n: None
        with Cons True l None show ?thesis by (simp add: Let_def)
      next
        case (Some r)
        then have "r \<in> snd ` set st" by (force dest: map_of_SomeD)
        moreover have "fst ` set q' \<subseteq> fst ` set (q @ [(r, sim_scale (sim_scale cur strength) d)]) \<union> snd ` set st"
          using Cons.prems True l None Some by (intro Cons.IH[of _ "q @ [(r, sim_scale (sim_scale cur strength) d)]"]) (simp add: Let_def)
        ultimately show ?thesis by auto
      qed
    qed
  qed
qed

text \<open>The \<^verbatim>\<open>while queue\<close> loop; \<open>visited\<close> is the set of ids already expanded.\<close>

function spread_loop :: "(ref \<Rightarrow> MemoryNode) \<Rightarrow> (string \<times> ref) list \<Rightarrow> real \<Rightarrow> (ref \<times> sim) list
    \<Rightarrow> string list \<Rightarrow> (string \<times> sim) list \<Rightarrow> (string \<times> sim) list" where
  "spread_loop h st d [] visited sc = sc"
| "spread_loop h st d ((r, a) # q) visited sc =
     (if node_id (h r) \<in> set visited then spread_loop h st d q visited sc
      else case spread_links st a d (connections (h r)) (sc, q) of
             (sc', q') \<Rightarrow> spread_loop h st d q' (node_id (h r) # visited) sc')"
  by pat_completeness auto

definition unvisited :: "(ref \<Rightarrow> MemoryNode) \<Rightarrow> (string \<times> ref) list \<Rightarrow> (ref \<times> sim) list
    \<Rightarrow> string list \<Rightarrow> string set" where
  "unvisited h st q visited =
     (\<lambda>r. node_id (h r)) ` (fst ` set q \<union> snd ` set st) - set visited"

lemma finite_unvisited: "finite (unvisited h st q visited)"
  by (simp add: unvisited_def)

lemma image_diff_grow: "f ` (Q \<union> S) - V \<subseteq> f ` (insert r Q \<union> S) - V"
  by blast

lemma image_diff_shrink:
  assumes "Q' \<subseteq> Q \<union> S" and "f r \<notin> V"
  shows "f ` (Q' \<union> S) - insert (f r) V \<subset> f ` (insert r Q \<union> S) - V"
proof -
  have "Q' \<union> S \<subseteq> insert r Q \<union> S"
    using assms(1) by blast
  then have "f ` (Q' \<union> S) \<subseteq> f ` (insert r Q \<union> S)"
    by (rule image_mono)
  moreover have "f r \<in> f ` (insert r Q \<union> S)"
    by blast
  ultimately show ?thesis
    using assms(2) by blast
qed

lemma unvisited_pop: "unvisited h st q visited \<subseteq> unvisited h st ((r, a) # q) visited"
  using image_diff_grow[where f = "\<lambda>r. node_id (h r)" and Q = "fst ` set q"
      and S = "snd ` set st" and V = "set visited" and r = r]
  by (simp add: unvisited_def)

lemma unvisited_expand:
  assumes "fst ` set q' \<subseteq> fst ` set q \<union> snd ` set st" and "node_id (h r) \<notin> set visited"
  shows "unvisited h st q' (node_id (h r) # visited) \<subset> unvisited h st ((r, a) # q) visited"
  using image_diff_shrink[where f = "\<lambda>r. node_id (h r)" and Q' = "fst ` set q'"
      and Q = "fst ` set q" and S = "snd ` set st" and V = "set visited" and r = r] assms
  by (simp add: unvisited_def)

termination spread_loop
proof (relation "inv_image (less_than <*lex*> less_than)
         (\<lambda>(h, st, d, q, visited, sc). (card (unvisited h st q visited), length q))")
  show "wf (inv_image (less_than <*lex*> less_than)
         (\<lambda>(h, st, d, q, visited, sc). (card (unvisited h st q visited), length q)))"
    by (intro wf_inv_image wf_lex_prod wf_less_than)
next
  fix h :: "ref \<Rightarrow> MemoryNode" and st :: "(string \<times> ref) list" and d :: real and r a q
    and visited :: "string list" and sc :: "(string \<times> sim) list"
  have "card (unvisited h st q visited) \<le> card (unvisited h st ((r, a) # q) visited)"
    by (rule card_mono[OF finite_unvisited unvisited_pop])
  then show "((h, st, d, q, visited, sc), (h, st, d, (r, a) # q, visited, sc))
      \<in> inv_image (less_than <*lex*> less_than)
         (\<lambda>(h, st, d, q, visited, sc). (card (unvisited h st q visited), length q))"
    by (simp add: le_less)
next
  fix h :: "ref \<Rightarrow> MemoryNode" and st :: "(string \<times> ref) list" and d :: real and r a q
    and visited :: "string list" and sc :: "(string \<times> sim) list" and sc' q'
  assume nv: "node_id (h r) \<notin> set visited"
    and "(sc', q') = spread_links st a d (connections (h r)) (sc, q)"
  then have "spread_links st a d (connections (h r)) (sc, q) = (sc', q')" by simp
  then have sub: "fst ` set q' \<subseteq> fst ` set q \<union> snd ` set st" by (rule spread_links_queue)
  have "card (unvisited h st q' (node_id (h r) # visited))
      < card (unvisited h st ((r, a) # q) visited)"
    using unvisited_expand[where h = h and r = r and a = a, OF sub nv]
    by (rule psubset_card_mono[OF finite_unvisited])
  then show "((h, st, d, q', node_id (h r) # visited, sc'), (h, st, d, (r, a) # q, visited, sc))
      \<in> inv_image (less_than <*lex*> less_than)
         (\<lambda>(h, st, d, q, visited, sc). (card (unvisited h st q visited), length q))"
    by simp
qed

text \<open>\<^verbatim>\<open>_spreading_activation\<close>: the scores after the loop, and the sorted result.\<close>

definition seed_scores :: "(ref \<Rightarrow> MemoryNode) \<Rightarrow> (ref \<times> sim) list \<Rightarrow> (string \<times> sim) list" where
  "seed_scores h seeds = foldl (\<lambda>sc (r, a). dict_set sc (node_id (h r)) a) [] seeds"

definition activation_scores :: "(ref \<Rightarrow> MemoryNode) \<Rightarrow> (string \<times> ref) list \<Rightarrow> ref list \<Rightarrow> sim list
    \<Rightarrow> real \<Rightarrow> (string \<times> sim) list" where
  "activation_scores h st seed_memories initial_activations d =
     spread_loop h st d (zip seed_memories initial_activations) []
       (seed_scores h (zip seed_memories initial_activations))"

definition memory_map :: "(ref \<Rightarrow> MemoryNode) \<Rightarrow> (string \<times> ref) list \<Rightarrow> ref list \<Rightarrow> (string \<times> ref) list" where
  "memory_map h st seed_memories =
     foldl (\<lambda>m (k, r). dict_set m k r)
       (foldl (\<lambda>m r. dict_set m (node_id (h r)) r) [] seed_memories) st"

definition spreading_activation :: "(ref \<Rightarrow> MemoryNode) \<Rightarrow> (string \<times> ref) list \<Rightarrow> ref list \<Rightarrow> sim list
    \<Rightarrow> real \<Rightarrow> (ref \<times> sim) list" where
  "spreading_activation h st seed_memories initial_activations d =
     sort_sim_desc snd
       (concat (map (\<lambda>(i, score). case map_of (memory_map h st seed_memories) i of
                                     Some r \<Rightarrow> [(r, score)] | None \<Rightarrow> [])
                  (activation_scores h st seed_memories initial_activations d)))"

section \<open>Retrieving memories\<close>

record retrieved =
  r_content :: "(string \<times> string) list"
  r_similarity :: sim
  r_timestamp :: int
  r_importance :: real
  r_metadata :: "(string \<times> string option) list"

definition touch :: "int \<Rightarrow> system \<Rightarrow> ref \<times> sim \<Rightarrow> system" where
  "touch now s hit =
     s\<lparr>heap := (heap s)(fst hit := (heap s (fst hit))
          \<lparr>access_count := access_count (heap s (fst hit)) + 1, last_accessed := now\<rparr>)\<rparr>"

definition retrieved_of :: "system \<Rightarrow> ref \<times> sim \<Rightarrow> retrieved" where
  "retrieved_of s hit = \<lparr>r_content = content (heap s (fst hit)), r_similarity = snd hit,
     r_timestamp = timestamp (heap s (fst hit)),
     r_importance = importance_score (heap s (fst hit)),
     r_metadata = metadata (heap s (fst hit))\<rparr>"

text \<open>
  \<^verbatim>\<open>retrieve_relevant_memories\<close>. \<open>q\<close> is what the embedding service does on the query
  (it raises or returns a vector), \<open>db\<close> where the database fails, if it does. The query
  \<^verbatim>\<open>select(LongTermMemory).limit(50)\<close> reads the first 50 rows.
\<close>

definition retrieve_relevant_memories ::
  "error + real list \<Rightarrow> int \<Rightarrow> db_failure option \<Rightarrow> int \<Rightarrow> system
     \<Rightarrow> (error + retrieved list) \<times> system" where
  "retrieve_relevant_memories q k db now s =
     (case q of
        Inl err \<Rightarrow> (Inl err, s)
      | Inr query_embedding \<Rightarrow>
          (case gather query_embedding (heap s) (working_memory s) [] of
             Inl err \<Rightarrow> (Inl err, s)
           | Inr c1 \<Rightarrow>
               (case gather query_embedding (heap s) (map snd (short_term_memory s)) c1 of
                  Inl err \<Rightarrow> (Inl err, s)
                | Inr c2 \<Rightarrow>
                    if db = Some FailOpen \<or> db = Some FailExecute then (Inl StoreUnavailable, s)
                    else (case gather_ltm query_embedding now (take 50 (long_term_table s)) (s, c2) of
                            (Some err, s1, c3) \<Rightarrow> (Inl err, s1)
                          | (None, s1, c3) \<Rightarrow>
                              (let top_candidates = py_take (k * 2) (sort_sim_desc snd c3);
                                   activated_memories =
                                     spreading_activation (heap s1) (short_term_memory s1)
                                       (map fst top_candidates) (map snd top_candidates) 0.7;
                                   hits = py_take k activated_memories;
                                   s2 = foldl (touch now) s1 hits
                               in (Inr (map (retrieved_of s2) hits), s2))))))"

section \<open>Runs of the system\<close>

datatype op =
    Store string "(string \<times> string) list" real "error + real list option" int
  | Retrieve "error + real list" int "db_failure option" int
  | Consolidate int "db_failure option"

fun step :: "op \<Rightarrow> system \<Rightarrow> system" where
  "step (Store message_id cont importance emb now) s =
     snd (store_interaction message_id cont importance emb now s)"
| "step (Retrieve q k db now) s = snd (retrieve_relevant_memories q k db now s)"
| "step (Consolidate now db) s = snd (consolidate_pass now db s)"

fun run :: "op list \<Rightarrow> system \<Rightarrow> system" where
  "run [] s = s"
| "run (x # xs) s = run xs (step x s)"

section \<open>What the operations leave unchanged\<close>

text \<open>The tiers and the database, without the store of objects and the link index.\<close>

definition tier_view :: "system \<Rightarrow>
    MemoryController \<times> ref list \<times> (string \<times> ref) list \<times> LongTermMemory list
      \<times> (string \<Rightarrow> SenderProfile option)" where
  "tier_view s = (memory_controller s, working_memory s, short_term_memory s,
     long_term_table s, sender_profiles s)"

lemma tier_view_add_link: "tier_view (add_link new m c s) = tier_view s"
  by (simp add: add_link_def Let_def tier_view_def)

lemma next_ref_add_link: "next_ref (add_link new m c s) = next_ref s"
  by (simp add: add_link_def Let_def)

lemma tier_view_link_step: "tier_view (snd (link_step new e m s)) = tier_view s"
  by (simp add: link_step_def tier_view_add_link split: option.split sum.split sim.split)

lemma next_ref_link_step: "next_ref (snd (link_step new e m s)) = next_ref s"
  by (simp add: link_step_def next_ref_add_link split: option.split sum.split sim.split)

lemma tier_view_link_loop: "tier_view (snd (link_loop new e ms s)) = tier_view s"
proof (induction ms arbitrary: s)
  case Nil
  show ?case by simp
next
  case (Cons m ms)
  obtain err s' where st: "link_step new e m s = (err, s')"
    by (cases "link_step new e m s")
  then have s': "tier_view s' = tier_view s"
    using tier_view_link_step[of new e m s] by simp
  show ?case
  proof (cases err)
    case None
    with st s' Cons.IH[of s'] show ?thesis by simp
  next
    case (Some x)
    with st s' show ?thesis by simp
  qed
qed

lemma next_ref_link_loop: "next_ref (snd (link_loop new e ms s)) = next_ref s"
proof (induction ms arbitrary: s)
  case Nil
  show ?case by simp
next
  case (Cons m ms)
  obtain err s' where st: "link_step new e m s = (err, s')"
    by (cases "link_step new e m s")
  then have s': "next_ref s' = next_ref s"
    using next_ref_link_step[of new e m s] by simp
  show ?case
  proof (cases err)
    case None
    with st s' Cons.IH[of s'] show ?thesis by simp
  next
    case (Some x)
    with st s' show ?thesis by simp
  qed
qed

lemma tier_view_update_memory_connections:
  "tier_view (snd (update_memory_connections new s)) = tier_view s"
  by (simp add: update_memory_connections_def tier_view_link_loop split: option.split)

lemma next_ref_update_memory_connections:
  "next_ref (snd (update_memory_connections new s)) = next_ref s"
  by (simp add: update_memory_connections_def next_ref_link_loop split: option.split)

text \<open>Storing: the deque takes the new reference, nothing else moves.\<close>

lemma store_interaction_tiers:
  "tier_view (snd (store_interaction message_id cont importance (Inr e) now s)) =
     (memory_controller s, deque_append working_maxlen (working_memory s) (next_ref s),
      short_term_memory s, long_term_table s, sender_profiles s)"
proof -
  define node where "node = \<lparr>node_id = ''mem_'' @ message_id, content = cont, embedding = e,
      timestamp = now, access_count = 0, last_accessed = now,
      importance_score = importance, decay_rate = 0.1, connections = [],
      metadata = [(''message_id'', Some message_id),
                  (''sender'', py_get cont ''sender_email''),
                  (''type'', Some ''interaction'')]\<rparr>"
  define s1 where "s1 = s\<lparr>heap := (heap s)(next_ref s := node), next_ref := Suc (next_ref s),
      working_memory := deque_append working_maxlen (working_memory s) (next_ref s)\<rparr>"
  obtain err s2 where u: "update_memory_connections (next_ref s) s1 = (err, s2)"
    by (cases "update_memory_connections (next_ref s) s1")
  then have "tier_view s2 = tier_view s1"
    using tier_view_update_memory_connections[of "next_ref s" s1] by simp
  moreover have "snd (store_interaction message_id cont importance (Inr e) now s) = s2"
    using u by (simp add: store_interaction_def Let_def node_def s1_def split: option.split)
  ultimately show ?thesis
    by (simp add: tier_view_def s1_def)
qed

lemma store_interaction_next_ref:
  "next_ref (snd (store_interaction message_id cont importance (Inr e) now s)) = Suc (next_ref s)"
proof -
  define node where "node = \<lparr>node_id = ''mem_'' @ message_id, content = cont, embedding = e,
      timestamp = now, access_count = 0, last_accessed = now,
      importance_score = importance, decay_rate = 0.1, connections = [],
      metadata = [(''message_id'', Some message_id),
                  (''sender'', py_get cont ''sender_email''),
                  (''type'', Some ''interaction'')]\<rparr>"
  define s1 where "s1 = s\<lparr>heap := (heap s)(next_ref s := node), next_ref := Suc (next_ref s),
      working_memory := deque_append working_maxlen (working_memory s) (next_ref s)\<rparr>"
  obtain err s2 where u: "update_memory_connections (next_ref s) s1 = (err, s2)"
    by (cases "update_memory_connections (next_ref s) s1")
  then have "next_ref s2 = next_ref s1"
    using next_ref_update_memory_connections[of "next_ref s" s1] by simp
  moreover have "snd (store_interaction message_id cont importance (Inr e) now s) = s2"
    using u by (simp add: store_interaction_def Let_def node_def s1_def split: option.split)
  ultimately show ?thesis
    by (simp add: s1_def)
qed

lemma store_interaction_failed:
  "store_interaction message_id cont importance (Inl err) now s = (Inl err, s)"
  by (simp add: store_interaction_def)

text \<open>Retrieving: only objects are allocated and touched.\<close>

lemma tier_view_gather_ltm:
  "tier_view (fst (snd (gather_ltm q now ls (s, candidates)))) = tier_view s"
proof (induction ls arbitrary: s candidates)
  case Nil
  show ?case by simp
next
  case (Cons l ls)
  show ?case
  proof (cases "ltm_embedding l")
    case None
    with Cons show ?thesis by simp
  next
    case (Some e)
    show ?thesis
    proof (cases "e = []")
      case True
      with Some Cons show ?thesis by simp
    next
      case False
      show ?thesis
      proof (cases "cosine_similarity q e")
        case (Inl err)
        with Some False show ?thesis by simp
      next
        case (Inr sm)
        have "tier_view (s\<lparr>heap := (heap s)(next_ref s := node_of_ltm now l e),
                 next_ref := Suc (next_ref s)\<rparr>) = tier_view s"
          by (simp add: tier_view_def)
        with Some False Inr Cons.IH show ?thesis by simp
      qed
    qed
  qed
qed

lemma tier_view_touch: "tier_view (touch now s hit) = tier_view s"
  by (simp add: touch_def tier_view_def)

lemma tier_view_foldl_touch: "tier_view (foldl (touch now) s hits) = tier_view s"
  by (induction hits arbitrary: s) (simp_all add: tier_view_touch)

lemma tier_view_retrieve:
  "tier_view (snd (retrieve_relevant_memories q k db now s)) = tier_view s"
proof (cases q)
  case (Inl err)
  then show ?thesis by (simp add: retrieve_relevant_memories_def)
next
  case q: (Inr query_embedding)
  show ?thesis
  proof (cases "gather query_embedding (heap s) (working_memory s) []")
    case (Inl err)
    with q show ?thesis by (simp add: retrieve_relevant_memories_def)
  next
    case c1: (Inr c1)
    show ?thesis
    proof (cases "gather query_embedding (heap s) (map snd (short_term_memory s)) c1")
      case (Inl err)
      with q c1 show ?thesis by (simp add: retrieve_relevant_memories_def)
    next
      case c2: (Inr c2)
      show ?thesis
      proof (cases "db = Some FailOpen \<or> db = Some FailExecute")
        case True
        with q c1 c2 show ?thesis by (auto simp: retrieve_relevant_memories_def)
      next
        case False
        obtain err s1 c3 where g:
          "gather_ltm query_embedding now (take 50 (long_term_table s)) (s, c2) = (err, s1, c3)"
          by (cases "gather_ltm query_embedding now (take 50 (long_term_table s)) (s, c2)")
        then have s1: "tier_view s1 = tier_view s"
          using tier_view_gather_ltm[of query_embedding now "take 50 (long_term_table s)" s c2]
          by simp
        show ?thesis
        proof (cases err)
          case (Some x)
          with q c1 c2 False g s1 show ?thesis
            by (simp add: retrieve_relevant_memories_def)
        next
          case None
          with q c1 c2 False g s1 show ?thesis
            by (simp add: retrieve_relevant_memories_def Let_def tier_view_foldl_touch)
        qed
      qed
    qed
  qed
qed

text \<open>Consolidating a system whose tiers are within their sizes changes the clock only.\<close>

lemma to_short_term_empty:
  "length working \<le> working_memory_size ctrl \<Longrightarrow> to_short_term ctrl h now working = []"
  by (simp add: to_short_term_def sorted_desc_def)

lemma consolidate_memories_within:
  assumes "length working \<le> working_memory_size ctrl"
    and "length short_term \<le> short_term_size ctrl"
  shows "consolidate_memories ctrl h now working short_term =
           (([], []), ctrl\<lparr>last_consolidation := now\<rparr>)"
  using assms
  by (simp add: consolidate_memories_def short_term_sorted_def to_short_term_empty sorted_desc_def)

lemma consolidate_pass_within:
  assumes "length (working_memory s) \<le> working_memory_size (memory_controller s)"
    and "length (short_term_memory s) \<le> short_term_size (memory_controller s)"
  shows "snd (consolidate_pass now db s) =
           s\<lparr>memory_controller := (memory_controller s)\<lparr>last_consolidation := now\<rparr>\<rparr>"
  using assms
  by (simp add: consolidate_pass_def consolidate_memories_within Let_def pop_all_def)

section \<open>The state of a running system\<close>

definition within_sizes :: "system \<Rightarrow> bool" where
  "within_sizes s =
     (short_term_memory s = [] \<and> long_term_table s = []
      \<and> length (working_memory s) \<le> working_maxlen
      \<and> working_memory_size (memory_controller s) = working_maxlen)"

lemma within_sizes_tier_view:
  "within_sizes s =
     (case tier_view s of (ctrl, working, short_term, rows, profiles) \<Rightarrow>
        short_term = [] \<and> rows = [] \<and> length working \<le> working_maxlen
        \<and> working_memory_size ctrl = working_maxlen)"
  by (simp add: within_sizes_def tier_view_def)

lemma within_sizes_init: "within_sizes (init t0)"
  by (simp add: within_sizes_def init_def new_controller_def working_maxlen_def)

lemma length_deque_append: "length (deque_append n xs x) = min n (Suc (length xs))"
  by (simp add: deque_append_def)

lemma within_sizes_step:
  assumes "within_sizes s"
  shows "within_sizes (step x s)"
proof (cases x)
  case (Store message_id cont importance emb now)
  show ?thesis
  proof (cases emb)
    case (Inl err)
    with Store assms show ?thesis by (simp add: store_interaction_failed)
  next
    case (Inr e)
    with Store assms store_interaction_tiers[of message_id cont importance e now s]
    show ?thesis
      by (simp add: within_sizes_tier_view tier_view_def length_deque_append)
  qed
next
  case (Retrieve q k db now)
  with assms tier_view_retrieve[of q k db now s] show ?thesis
    by (simp add: within_sizes_tier_view)
next
  case (Consolidate now db)
  have "snd (consolidate_pass now db s) =
          s\<lparr>memory_controller := (memory_controller s)\<lparr>last_consolidation := now\<rparr>\<rparr>"
    using assms by (intro consolidate_pass_within) (simp_all add: within_sizes_def)
  with Consolidate assms show ?thesis
    by (simp add: within_sizes_def)
qed

lemma within_sizes_run: "within_sizes s \<Longrightarrow> within_sizes (run xs s)"
  by (induction xs arbitrary: s) (simp_all add: within_sizes_step)

lemma within_sizes_reachable: "within_sizes (run xs (init t0))"
  by (rule within_sizes_run[OF within_sizes_init])


section \<open>The short-term tier of a running system\<close>

definition demo_ops :: "op list" where
  "demo_ops = [Store ''a'' [] 0.5 (Inr None) 0, Retrieve (Inr [1]) 5 None 1, Consolidate 2 None]"

lemma store_interaction_no_embedding:
  "store_interaction message_id cont importance (Inr None) now s =
     (Inr (next_ref s),
      s\<lparr>heap := (heap s)(next_ref s :=
           \<lparr>node_id = ''mem_'' @ message_id, content = cont, embedding = None,
            timestamp = now, access_count = 0, last_accessed = now,
            importance_score = importance, decay_rate = 0.1, connections = [],
            metadata = [(''message_id'', Some message_id),
                        (''sender'', py_get cont ''sender_email''),
                        (''type'', Some ''interaction'')]\<rparr>),
         next_ref := Suc (next_ref s),
         working_memory := deque_append working_maxlen (working_memory s) (next_ref s)\<rparr>)"
  by (simp add: store_interaction_def update_memory_connections_def Let_def)

lemma demo_working: "working_memory (run demo_ops (init 0)) = [0]"
proof -
  define s1 where "s1 = step (Store ''a'' [] 0.5 (Inr None) 0) (init 0)"
  define s2 where "s2 = step (Retrieve (Inr [1]) 5 None 1) s1"
  have 1: "working_memory s1 = [0]"
    by (simp add: s1_def store_interaction_no_embedding init_def deque_append_def
        working_maxlen_def)
  have "tier_view s2 = tier_view s1"
    unfolding s2_def by (simp add: tier_view_retrieve)
  then have 2: "working_memory s2 = [0]"
    using 1 by (simp add: tier_view_def)
  have "working_memory (step (Consolidate 2 None) s2) = working_memory s2"
    by (simp add: consolidate_pass_def consolidate_memories_def Let_def
        split: prod.split sum.split)
  then show ?thesis
    using 2 by (simp add: demo_ops_def s1_def s2_def)
qed

text \<open>
  C10. In every state the system reaches from its initial state by storing, retrieving
  and consolidating, the short-term dictionary is empty: no operation inserts into it.
  Storing only appends to the working deque, which drops its oldest reference when full;
  the deque never holds more than \<open>working_maxlen\<close> references, which is the
  controller's \<open>working_memory_size\<close>, so the slice of the sorted working list that a
  consolidation pass would move to the short-term tier is empty at any time \<open>now\<close>.
\<close>

theorem short_term_always_empty:
  assumes "s = run ops (init t0)"
  shows "short_term_memory s = []
    \<and> working_memory_size (memory_controller s) = working_maxlen
    \<and> length (working_memory s) \<le> working_maxlen
    \<and> to_short_term (memory_controller s) (heap s) now (working_memory s) = []
    \<and> working_memory (snd (store_interaction message_id cont importance (Inr e) now s)) =
        deque_append working_maxlen (working_memory s) (next_ref s)
    \<and> short_term_memory (snd (store_interaction message_id cont importance (Inr e) now s)) = []"
proof -
  have w: "within_sizes s"
    unfolding assms by (rule within_sizes_reachable)
  then have "to_short_term (memory_controller s) (heap s) now (working_memory s) = []"
    by (intro to_short_term_empty) (simp add: within_sizes_def)
  moreover have "tier_view (snd (store_interaction message_id cont importance (Inr e) now s)) =
     (memory_controller s, deque_append working_maxlen (working_memory s) (next_ref s),
      short_term_memory s, long_term_table s, sender_profiles s)"
    by (rule store_interaction_tiers)
  ultimately show ?thesis
    using w by (simp add: within_sizes_def tier_view_def)
qed

theorem short_term_always_empty_witness:
  "short_term_memory (run demo_ops (init 0)) = []
    \<and> working_memory (run demo_ops (init 0)) = [0]
    \<and> to_short_term (memory_controller (run demo_ops (init 0))) (heap (run demo_ops (init 0)))
         3 (working_memory (run demo_ops (init 0))) = []"
  using short_term_always_empty[OF refl, of demo_ops 0 3] demo_working
  by simp


section \<open>Residence of a node id\<close>




section \<open>Eviction from the working tier\<close>

text \<open>
  The eviction the specification describes, in its words: the node that leaves a full
  working tier is a lowest-ranked one by the working rank, it is found in the short-term
  tier afterwards, and the working tier is at its size.
\<close>

definition lowest_ranked :: "int \<Rightarrow> system \<Rightarrow> ref \<Rightarrow> bool" where
  "lowest_ranked now s r =
     (r \<in> set (working_memory s)
      \<and> list_all (\<lambda>r'. working_rank now (heap s r) \<le> working_rank now (heap s r'))
           (working_memory s))"

definition spec_eviction :: "int \<Rightarrow> system \<Rightarrow> system \<Rightarrow> bool" where
  "spec_eviction now s s' =
     list_ex (\<lambda>r. lowest_ranked now s r \<and> r \<notin> set (working_memory s')
                  \<and> r \<in> snd ` set (short_term_memory s'))
       (working_memory s)"

text \<open>
  Twenty-one interactions stored at time 0 with no embedding, the importance going down
  from 1 in steps of 1/20: the first stored node has the highest rank.
\<close>

definition c1_store :: "nat \<Rightarrow> op" where
  "c1_store i = Store (replicate (Suc i) CHR ''m'') [] (real (20 - i) / 20) (Inr None) 0"

definition c1_run :: "nat \<Rightarrow> system" where
  "c1_run n = run (map c1_store [0..<n]) (init 0)"

lemma run_append: "run (xs @ ys) s = run ys (run xs s)"
  by (induction xs arbitrary: s) simp_all

lemma c1_run_Suc: "c1_run (Suc n) = step (c1_store n) (c1_run n)"
  by (simp add: c1_run_def run_append)

lemma deque_append_upt: "deque_append 20 [n - 20..<n] n = [n - 19..<Suc n]"
proof -
  have "[n - 20..<n] @ [n] = [n - 20..<Suc n]"
    by simp
  then have "deque_append 20 [n - 20..<n] n
      = drop (length [n - 20..<Suc n] - 20) [n - 20..<Suc n]"
    by (simp only: deque_append_def)
  also have "\<dots> = [n - 19..<Suc n]"
  proof (cases "n < 20")
    case True
    then show ?thesis by (simp del: upt_Suc)
  next
    case False
    then have "n - 20 + 1 = n - 19" "Suc n - (n - 20) - 20 = 1"
      by simp_all
    then show ?thesis
      by (simp del: upt_Suc)
  qed
  finally show ?thesis .
qed

lemma c1_run_tiers:
  "next_ref (c1_run n) = n \<and> working_memory (c1_run n) = [n - 20..<n]"
proof (induction n)
  case 0
  show ?case by (simp add: c1_run_def init_def)
next
  case (Suc n)
  then show ?case
    by (simp add: c1_run_Suc c1_store_def store_interaction_no_embedding working_maxlen_def
        deque_append_upt del: upt_Suc)
qed

lemma c1_run_heap:
  "i < n \<Longrightarrow> importance_score (heap (c1_run n) i) = real (20 - i) / 20
     \<and> timestamp (heap (c1_run n) i) = 0"
proof (induction n)
  case 0
  then show ?case by simp
next
  case (Suc n)
  have "next_ref (c1_run n) = n"
    using c1_run_tiers[of n] by simp
  with Suc show ?case
    by (cases "i = n")
      (simp_all add: c1_run_Suc c1_store_def store_interaction_no_embedding)
qed

text \<open>
  C1, as the specification states it, fails: with a full working tier the node that
  leaves is the oldest one (here the one of highest rank, while the lowest-ranked node
  stays), and it is not put into the short-term tier.
\<close>

theorem eviction_counterexample:
  "length (working_memory (c1_run 20)) = working_maxlen
   \<and> working_memory (c1_run 20) = [0..<20]
   \<and> working_memory (c1_run 21) = [1..<21]
   \<and> short_term_memory (c1_run 21) = []
   \<and> working_rank 0 (heap (c1_run 20) 19) < working_rank 0 (heap (c1_run 20) 0)
   \<and> \<not> spec_eviction 0 (c1_run 20) (c1_run 21)"
proof -
  have w: "working_memory (c1_run 20) = [0..<20]" "working_memory (c1_run 21) = [1..<21]"
    using c1_run_tiers[of 20] c1_run_tiers[of 21] by (simp_all del: upt_Suc)
  have "within_sizes (c1_run 21)"
    unfolding c1_run_def by (rule within_sizes_reachable)
  then have st: "short_term_memory (c1_run 21) = []"
    by (simp add: within_sizes_def)
  have "importance_score (heap (c1_run 20) 19) = 1 / 20"
    "importance_score (heap (c1_run 20) 0) = 1"
    "timestamp (heap (c1_run 20) 19) = 0" "timestamp (heap (c1_run 20) 0) = 0"
    using c1_run_heap[of 19 20] c1_run_heap[of 0 20] by simp_all
  then have r: "working_rank 0 (heap (c1_run 20) 19) < working_rank 0 (heap (c1_run 20) 0)"
    by (simp add: working_rank_def timedelta_seconds_def)
  have "\<not> spec_eviction 0 (c1_run 20) (c1_run 21)"
    by (simp add: spec_eviction_def st list_ex_iff)
  with w st r show ?thesis
    by (simp add: working_maxlen_def)
qed

text \<open>
  C1, amended. When a node is stored into a working tier that holds \<open>working_maxlen\<close>
  (20) references, the reference that leaves is the oldest one, the head of the deque,
  whatever its rank; the new reference is appended, so the working tier is again at its
  size. The node that left is in no tier: the short-term dictionary and the long-term
  table are as before.
\<close>

theorem store_evicts_oldest:
  assumes "length (working_memory s) = working_maxlen"
    and "s' = snd (store_interaction message_id cont importance (Inr e) now s)"
  shows "working_memory s' = tl (working_memory s) @ [next_ref s]
    \<and> length (working_memory s') = working_maxlen
    \<and> short_term_memory s' = short_term_memory s
    \<and> long_term_table s' = long_term_table s"
proof -
  have "tier_view s' =
     (memory_controller s, deque_append working_maxlen (working_memory s) (next_ref s),
      short_term_memory s, long_term_table s, sender_profiles s)"
    unfolding assms(2) by (rule store_interaction_tiers)
  moreover have "deque_append working_maxlen (working_memory s) (next_ref s) =
      tl (working_memory s) @ [next_ref s]"
    using assms(1) by (cases "working_memory s") (simp_all add: deque_append_def working_maxlen_def)
  ultimately show ?thesis
    using assms(1) by (simp add: tier_view_def working_maxlen_def)
qed

theorem store_evicts_oldest_witness:
  "length (working_memory (c1_run 20)) = working_maxlen
   \<and> working_memory (snd (store_interaction ''x'' [] 0.9 (Inr None) 7 (c1_run 20)))
       = [1..<20] @ [20]
   \<and> short_term_memory (snd (store_interaction ''x'' [] 0.9 (Inr None) 7 (c1_run 20))) = []"
proof -
  have w: "working_memory (c1_run 20) = [0..<20]" "next_ref (c1_run 20) = 20"
    using c1_run_tiers[of 20] by (simp_all del: upt_Suc)
  have l: "length (working_memory (c1_run 20)) = working_maxlen"
    using w by (simp add: working_maxlen_def)
  have "within_sizes (c1_run 20)"
    unfolding c1_run_def by (rule within_sizes_reachable)
  then have st: "short_term_memory (c1_run 20) = []"
    by (simp add: within_sizes_def)
  have "tl [0..<20] = [1..<20]"
    by (simp add: upt_conv_Cons)
  with store_evicts_oldest[where message_id = "''x''" and cont = "[]" and importance = "0.9"
      and e = None and now = 7, OF l refl] w l st show ?thesis
    by simp
qed


section \<open>Retrieval when the database fails\<close>

definition c6_system :: system where
  "c6_system = run [Store ''a'' [] 0.5 (Inr (Some [1])) 0] (init 0)"

lemma linalg_norm_single_1: "linalg_norm [1] = 1"
  by (simp add: linalg_norm_def np_dot_def)

lemma c6_working: "working_memory c6_system = [0] \<and> embedding (heap c6_system 0) = Some [1]
    \<and> short_term_memory c6_system = []"
  by (simp add: c6_system_def store_interaction_def update_memory_connections_def Let_def
      init_def deque_append_def working_maxlen_def link_step_def)

text \<open>
  C6, as the specification states it, fails: with one node in the working tier whose
  similarity to the query is 1, and the database query failing, the call raises
  \<open>StoreUnavailable\<close> and returns no list.
\<close>

theorem retrieve_raises_counterexample:
  "gather [1] (heap c6_system) (working_memory c6_system) [] = Inr [(0, Num 1)]
   \<and> fst (retrieve_relevant_memories (Inr [1]) 5 (Some FailExecute) 1 c6_system)
       = Inl StoreUnavailable"
proof -
  have "gather [1] (heap c6_system) (working_memory c6_system) [] = Inr [(0, Num 1)]"
    using c6_working
    by (simp add: cosine_similarity_def linalg_norm_single_1) (simp add: np_dot_def)
  then show ?thesis
    using c6_working by (simp add: retrieve_relevant_memories_def)
qed

text \<open>
  C6, amended. When the database fails on opening the session or on the query, the call
  raises: it returns an error and no result list, and the state is as before the call
  (no access count is updated). The error is \<open>StoreUnavailable\<close> whenever the query
  embedding was obtained and the similarity loops over the working and the short-term
  tier did not raise.
\<close>

theorem retrieve_store_unavailable:
  assumes "db = Some FailOpen \<or> db = Some FailExecute"
  shows "(\<exists>err. fst (retrieve_relevant_memories q k db now s) = Inl err)
    \<and> snd (retrieve_relevant_memories q k db now s) = s
    \<and> (q = Inr query_embedding
         \<and> gather query_embedding (heap s) (working_memory s) [] = Inr c1
         \<and> gather query_embedding (heap s) (map snd (short_term_memory s)) c1 = Inr c2
       \<longrightarrow> fst (retrieve_relevant_memories q k db now s) = Inl StoreUnavailable)"
  using assms
  by (auto simp: retrieve_relevant_memories_def split: sum.split)

theorem retrieve_store_unavailable_witness:
  "fst (retrieve_relevant_memories (Inr [1]) 5 (Some FailOpen) 1 c6_system) = Inl StoreUnavailable
   \<and> snd (retrieve_relevant_memories (Inr [1]) 5 (Some FailOpen) 1 c6_system) = c6_system"
proof -
  have g: "gather [1] (heap c6_system) (working_memory c6_system) [] = Inr [(0, Num 1)]"
    using c6_working
    by (simp add: cosine_similarity_def linalg_norm_single_1) (simp add: np_dot_def)
  have g2: "gather [1] (heap c6_system) (map snd (short_term_memory c6_system)) [(0, Num 1)]
      = Inr [(0, Num 1)]"
    using c6_working by simp
  show ?thesis
    using retrieve_store_unavailable[where db = "Some FailOpen" and q = "Inr [1]"
        and query_embedding = "[1]" and s = c6_system and ?c1.0 = "[(0, Num 1)]"
        and ?c2.0 = "[(0, Num 1)]" and k = 5 and now = 1] g g2
    by simp
qed

section \<open>Vectors of zero magnitude\<close>

definition c9_system :: system where
  "c9_system = run [Store ''z'' [] 0.5 (Inr (Some [0, 0])) 0] (init 0)"

lemma c9_working: "working_memory c9_system = [0] \<and> embedding (heap c9_system 0) = Some [0, 0]
    \<and> short_term_memory c9_system = []"
  by (simp add: c9_system_def store_interaction_def update_memory_connections_def Let_def
      init_def deque_append_def working_maxlen_def link_step_def)

text \<open>
  C9, as the specification states it, fails: a node whose embedding is the zero vector is
  a candidate of the retrieval, and its similarity is the nan of the division by zero, not
  0.
\<close>

theorem zero_vector_counterexample:
  "gather [1, 0] (heap c9_system) (working_memory c9_system) [] = Inr [(0, NaN)]"
  using c9_working
  by (simp add: cosine_similarity_def linalg_norm_def np_dot_def)

text \<open>
  C9, amended. In the candidate loops of a retrieval, every node that has an embedding
  (of the length of the query embedding) becomes a candidate, none is excluded; when the
  query or the node embedding has zero magnitude the similarity recorded is the nan that
  the division by zero gives, otherwise it is the cosine similarity.
\<close>

theorem candidates_keep_zero_vectors:
  assumes "list_all (\<lambda>r. case embedding (h r) of None \<Rightarrow> True
                          | Some e \<Rightarrow> length e = length q) rs"
  shows "gather q h rs candidates =
     Inr (candidates @ concat (map (\<lambda>r. case embedding (h r) of
            None \<Rightarrow> []
          | Some e \<Rightarrow> [(r, if linalg_norm q * linalg_norm e = 0 then NaN
                           else Num (np_dot q e / (linalg_norm q * linalg_norm e)))]) rs))"
  using assms
proof (induction rs arbitrary: candidates)
  case Nil
  show ?case by simp
next
  case (Cons r rs)
  show ?case
  proof (cases "embedding (h r)")
    case None
    with Cons show ?thesis by simp
  next
    case (Some e)
    with Cons.prems have "length e = length q" by simp
    with Some Cons show ?thesis
      by (simp add: cosine_similarity_def)
  qed
qed

theorem candidates_keep_zero_vectors_witness:
  "gather [1, 0] (heap c9_system) [0] [] = Inr [(0, NaN)]"
proof -
  have "list_all (\<lambda>r. case embedding (heap c9_system r) of None \<Rightarrow> True
                          | Some e \<Rightarrow> length e = length [1::real, 0]) [0]"
    using c9_working by simp
  from candidates_keep_zero_vectors[OF this, of "[]"] show ?thesis
    using c9_working by (simp add: linalg_norm_def np_dot_def)
qed


section \<open>The effect of one link\<close>

text \<open>When an iteration of the linking loop raises, and the strength of the link it makes.\<close>

definition link_raises :: "real list \<Rightarrow> string \<Rightarrow> MemoryNode \<Rightarrow> bool" where
  "link_raises e nid M =
     (node_id M \<noteq> nid
      \<and> (case embedding M of None \<Rightarrow> False | Some e' \<Rightarrow> length e \<noteq> length e'))"

definition link_strength :: "real list \<Rightarrow> string \<Rightarrow> MemoryNode \<Rightarrow> real option" where
  "link_strength e nid M =
     (if node_id M = nid then None
      else case embedding M of
        None \<Rightarrow> None
      | Some e' \<Rightarrow>
          if length e = length e' \<and> linalg_norm e * linalg_norm e' \<noteq> 0
             \<and> np_dot e e' / (linalg_norm e * linalg_norm e') > 0.7
          then Some (np_dot e e' / (linalg_norm e * linalg_norm e')) else None)"

lemma link_step_eq:
  "link_step new e m s =
     (if link_raises e (node_id (heap s new)) (heap s m) then (Some ValueError, s)
      else case link_strength e (node_id (heap s new)) (heap s m) of
        None \<Rightarrow> (None, s)
      | Some c \<Rightarrow> (None, add_link new m c s))"
  by (simp add: link_step_def link_raises_def link_strength_def cosine_similarity_def
      split: option.split)

lemma add_link_node_id: "node_id (heap (add_link new m c s) r) = node_id (heap s r)"
  by (simp add: add_link_def Let_def)

lemma add_link_embedding: "embedding (heap (add_link new m c s) r) = embedding (heap s r)"
  by (simp add: add_link_def Let_def)

lemma add_link_importance:
  "importance_score (heap (add_link new m c s) r) = importance_score (heap s r)"
  by (simp add: add_link_def Let_def)

lemma add_link_connections:
  "connections (heap (add_link new m c s) r) =
     connections (heap s r)
       @ (if r = new then [(node_id (heap s m), c)] else [])
       @ (if r = m then [(node_id (heap s new), c)] else [])"
  by (simp add: add_link_def Let_def)

lemma add_link_graph:
  "memory_graph (add_link new m c s) k =
     memory_graph s k
       @ (if k = node_id (heap s new) then [(node_id (heap s m), c)] else [])
       @ (if k = node_id (heap s m) then [(node_id (heap s new), c)] else [])"
  by (simp add: add_link_def Let_def)

section \<open>Storing and retrieving, step by step\<close>

lemma importance_link_step:
  "importance_score (heap (snd (link_step new e m s)) r) = importance_score (heap s r)"
  by (simp add: link_step_eq add_link_importance split: option.split)

lemma importance_link_loop:
  "importance_score (heap (snd (link_loop new e ms s)) r) = importance_score (heap s r)"
proof (induction ms arbitrary: s)
  case Nil
  show ?case by simp
next
  case (Cons m ms)
  obtain err s' where st: "link_step new e m s = (err, s')"
    by (cases "link_step new e m s")
  then have s': "importance_score (heap s' r) = importance_score (heap s r)"
    using importance_link_step[of new e m s r] by simp
  show ?case
  proof (cases err)
    case None
    with st s' Cons.IH[of s'] show ?thesis by simp
  next
    case (Some x)
    with st s' show ?thesis by simp
  qed
qed

text \<open>The node a store makes and the state in which the linking loop starts.\<close>

definition new_node :: "string \<Rightarrow> (string \<times> string) list \<Rightarrow> real \<Rightarrow> real list option \<Rightarrow> int
    \<Rightarrow> MemoryNode" where
  "new_node message_id cont importance e now =
     \<lparr>node_id = ''mem_'' @ message_id, content = cont, embedding = e,
      timestamp = now, access_count = 0, last_accessed = now,
      importance_score = importance, decay_rate = 0.1, connections = [],
      metadata = [(''message_id'', Some message_id),
                  (''sender'', py_get cont ''sender_email''),
                  (''type'', Some ''interaction'')]\<rparr>"

definition appended :: "string \<Rightarrow> (string \<times> string) list \<Rightarrow> real \<Rightarrow> real list option \<Rightarrow> int
    \<Rightarrow> system \<Rightarrow> system" where
  "appended message_id cont importance e now s =
     s\<lparr>heap := (heap s)(next_ref s := new_node message_id cont importance e now),
       next_ref := Suc (next_ref s),
       working_memory := deque_append working_maxlen (working_memory s) (next_ref s)\<rparr>"

lemma store_interaction_appended:
  "snd (store_interaction message_id cont importance (Inr e) now s) =
     snd (update_memory_connections (next_ref s) (appended message_id cont importance e now s))"
  by (simp add: store_interaction_def appended_def new_node_def Let_def
      split: prod.split option.split)

lemma retrieve_without_rows:
  assumes "long_term_table s = []"
  shows "\<exists>hits. snd (retrieve_relevant_memories q k db now s) = foldl (touch now) s hits"
proof -
  have stay: "\<exists>hits. s = foldl (touch now) s hits"
    by (rule exI[of _ "[]"]) simp
  show ?thesis
  proof (cases q)
    case (Inl err)
    with stay show ?thesis by (simp add: retrieve_relevant_memories_def)
  next
    case q: (Inr query_embedding)
    show ?thesis
    proof (cases "gather query_embedding (heap s) (working_memory s) []")
      case (Inl err)
      with q stay show ?thesis by (simp add: retrieve_relevant_memories_def)
    next
      case c1: (Inr c1)
      show ?thesis
      proof (cases "gather query_embedding (heap s) (map snd (short_term_memory s)) c1")
        case (Inl err)
        with q c1 stay show ?thesis by (simp add: retrieve_relevant_memories_def)
      next
        case c2: (Inr c2)
        show ?thesis
        proof (cases "db = Some FailOpen \<or> db = Some FailExecute")
          case True
          with q c1 c2 stay show ?thesis by (auto simp: retrieve_relevant_memories_def)
        next
          case False
          with q c1 c2 assms show ?thesis
            by (simp add: retrieve_relevant_memories_def Let_def) blast
        qed
      qed
    qed
  qed
qed

section \<open>The links a store creates\<close>

definition cosine :: "real list \<Rightarrow> real list \<Rightarrow> real" where
  "cosine e e' = np_dot e e' / (linalg_norm e * linalg_norm e')"

text \<open>
  The links the loop makes over a list of nodes, and the entries they put into the link
  list of an object \<open>r\<close> and under a key \<open>k\<close> of the adjacency index.
\<close>

definition links_of :: "real list \<Rightarrow> string \<Rightarrow> (ref \<Rightarrow> MemoryNode) \<Rightarrow> ref list \<Rightarrow> (ref \<times> real) list" where
  "links_of e nid h ms =
     concat (map (\<lambda>m. case link_strength e nid (h m) of None \<Rightarrow> [] | Some c \<Rightarrow> [(m, c)]) ms)"

definition conn_entries :: "ref \<Rightarrow> string \<Rightarrow> (ref \<Rightarrow> MemoryNode) \<Rightarrow> ref \<Rightarrow> (ref \<times> real) list
    \<Rightarrow> (string \<times> real) list" where
  "conn_entries new nid h r L =
     concat (map (\<lambda>(m, c). (if r = new then [(node_id (h m), c)] else [])
                           @ (if r = m then [(nid, c)] else [])) L)"

definition graph_entries :: "string \<Rightarrow> (ref \<Rightarrow> MemoryNode) \<Rightarrow> string \<Rightarrow> (ref \<times> real) list
    \<Rightarrow> (string \<times> real) list" where
  "graph_entries nid h k L =
     concat (map (\<lambda>(m, c). (if k = nid then [(node_id (h m), c)] else [])
                           @ (if k = node_id (h m) then [(nid, c)] else [])) L)"

definition same_keys :: "(ref \<Rightarrow> MemoryNode) \<Rightarrow> (ref \<Rightarrow> MemoryNode) \<Rightarrow> bool" where
  "same_keys h h' = (\<forall>r. node_id (h' r) = node_id (h r) \<and> embedding (h' r) = embedding (h r))"

lemma same_keys_refl: "same_keys h h"
  by (simp add: same_keys_def)

lemma same_keys_trans: "same_keys h h' \<Longrightarrow> same_keys h' h'' \<Longrightarrow> same_keys h h''"
  by (simp add: same_keys_def)

lemma same_keys_add_link: "same_keys (heap s) (heap (add_link new m c s))"
  by (simp add: same_keys_def add_link_node_id add_link_embedding)

lemma link_strength_same_keys:
  "same_keys h h' \<Longrightarrow> link_strength e nid (h' m) = link_strength e nid (h m)"
  by (simp add: same_keys_def link_strength_def)

lemma link_raises_same_keys:
  "same_keys h h' \<Longrightarrow> link_raises e nid (h' m) = link_raises e nid (h m)"
  by (simp add: same_keys_def link_raises_def)

lemma links_of_same_keys: "same_keys h h' \<Longrightarrow> links_of e nid h' ms = links_of e nid h ms"
  by (simp add: links_of_def link_strength_same_keys)

lemma conn_entries_same_keys:
  "same_keys h h' \<Longrightarrow> conn_entries new nid h' r L = conn_entries new nid h r L"
  by (simp add: conn_entries_def same_keys_def cong: if_cong)

lemma graph_entries_same_keys:
  "same_keys h h' \<Longrightarrow> graph_entries nid h' k L = graph_entries nid h k L"
  by (simp add: graph_entries_def same_keys_def cong: if_cong)

lemma links_of_Cons:
  "links_of e nid h (m # ms) =
     (case link_strength e nid (h m) of None \<Rightarrow> [] | Some c \<Rightarrow> [(m, c)]) @ links_of e nid h ms"
  by (simp add: links_of_def)

lemma conn_entries_Cons:
  "conn_entries new nid h r ((m, c) # L) =
     (if r = new then [(node_id (h m), c)] else []) @ (if r = m then [(nid, c)] else [])
       @ conn_entries new nid h r L"
  by (simp add: conn_entries_def)

lemma graph_entries_Cons:
  "graph_entries nid h k ((m, c) # L) =
     (if k = nid then [(node_id (h m), c)] else []) @ (if k = node_id (h m) then [(nid, c)] else [])
       @ graph_entries nid h k L"
  by (simp add: graph_entries_def)

text \<open>The whole loop, when no iteration raises.\<close>

lemma link_loop_effect:
  assumes "list_all (\<lambda>m. \<not> link_raises e (node_id (heap s new)) (heap s m)) ms"
  shows "fst (link_loop new e ms s) = None
    \<and> same_keys (heap s) (heap (snd (link_loop new e ms s)))
    \<and> (\<forall>r. connections (heap (snd (link_loop new e ms s)) r) =
            connections (heap s r)
              @ conn_entries new (node_id (heap s new)) (heap s) r
                  (links_of e (node_id (heap s new)) (heap s) ms))
    \<and> (\<forall>k. memory_graph (snd (link_loop new e ms s)) k =
            memory_graph s k
              @ graph_entries (node_id (heap s new)) (heap s) k
                  (links_of e (node_id (heap s new)) (heap s) ms))"
  using assms
proof (induction ms arbitrary: s)
  case Nil
  show ?case
    by (simp add: same_keys_refl links_of_def conn_entries_def graph_entries_def)
next
  case (Cons m ms)
  let ?nid = "node_id (heap s new)"
  from Cons.prems have nr: "\<not> link_raises e ?nid (heap s m)"
    and rest: "list_all (\<lambda>m. \<not> link_raises e ?nid (heap s m)) ms"
    by simp_all
  show ?case
  proof (cases "link_strength e ?nid (heap s m)")
    case None
    then have "link_loop new e (m # ms) s = link_loop new e ms s"
      using nr by (simp add: link_step_eq)
    moreover have "links_of e ?nid (heap s) (m # ms) = links_of e ?nid (heap s) ms"
      using None by (simp add: links_of_Cons)
    ultimately show ?thesis
      using Cons.IH[OF rest] by simp
  next
    case (Some c)
    let ?s1 = "add_link new m c s"
    have sk: "same_keys (heap s) (heap ?s1)"
      by (rule same_keys_add_link)
    have nid1: "node_id (heap ?s1 new) = ?nid"
      by (rule add_link_node_id)
    have loop: "link_loop new e (m # ms) s = link_loop new e ms ?s1"
      using nr Some by (simp add: link_step_eq)
    have "list_all (\<lambda>m. \<not> link_raises e (node_id (heap ?s1 new)) (heap ?s1 m)) ms"
      using rest by (simp add: nid1 link_raises_same_keys[OF sk])
    from Cons.IH[OF this]
    have ih: "fst (link_loop new e ms ?s1) = None"
      "same_keys (heap ?s1) (heap (snd (link_loop new e ms ?s1)))"
      "\<And>r. connections (heap (snd (link_loop new e ms ?s1)) r) =
            connections (heap ?s1 r)
              @ conn_entries new ?nid (heap s) r (links_of e ?nid (heap s) ms)"
      "\<And>k. memory_graph (snd (link_loop new e ms ?s1)) k =
            memory_graph ?s1 k
              @ graph_entries ?nid (heap s) k (links_of e ?nid (heap s) ms)"
      by (simp_all add: nid1 links_of_same_keys[OF sk] conn_entries_same_keys[OF sk]
          graph_entries_same_keys[OF sk])
    have l: "links_of e ?nid (heap s) (m # ms) = (m, c) # links_of e ?nid (heap s) ms"
      using Some by (simp add: links_of_Cons)
    show ?thesis
      unfolding loop l conn_entries_Cons graph_entries_Cons
      using ih(1) same_keys_trans[OF sk ih(2)]
      by (simp add: ih(3) ih(4) add_link_connections add_link_graph)
  qed
qed

lemma concat_map_singletons:
  "(\<And>x. x \<in> set xs \<Longrightarrow> f x = [g x]) \<Longrightarrow> concat (map f xs) = map g xs"
  by (induction xs) simp_all

lemma concat_map_optional:
  "(\<And>x. x \<in> set xs \<Longrightarrow> f x = (if P x then [g x] else [])) \<Longrightarrow>
     concat (map f xs) = map g (filter P xs)"
  by (induction xs) simp_all

lemma concat_map_skip:
  "(\<And>x. x \<in> set xs \<Longrightarrow> \<not> P x \<Longrightarrow> f x = []) \<Longrightarrow>
   (\<And>x. x \<in> set xs \<Longrightarrow> P x \<Longrightarrow> f x = g x) \<Longrightarrow>
     concat (map f xs) = concat (map g (filter P xs))"
  by (induction xs) simp_all

section \<open>Symmetry of the adjacency index\<close>

definition graph_symmetric :: "system \<Rightarrow> bool" where
  "graph_symmetric s =
     (\<forall>a b c. ((b, c) \<in> set (memory_graph s a)) = ((a, c) \<in> set (memory_graph s b)))"

lemma graph_symmetric_add_link:
  "graph_symmetric s \<Longrightarrow> graph_symmetric (add_link new m c s)"
  unfolding graph_symmetric_def add_link_graph by auto

lemma graph_symmetric_link_step:
  "graph_symmetric s \<Longrightarrow> graph_symmetric (snd (link_step new e m s))"
  by (simp add: link_step_eq graph_symmetric_add_link split: option.split)

lemma graph_symmetric_link_loop:
  "graph_symmetric s \<Longrightarrow> graph_symmetric (snd (link_loop new e ms s))"
proof (induction ms arbitrary: s)
  case Nil
  then show ?case by simp
next
  case (Cons m ms)
  obtain err s' where st: "link_step new e m s = (err, s')"
    by (cases "link_step new e m s")
  then have s': "graph_symmetric s'"
    using graph_symmetric_link_step[OF Cons.prems, of new e m] by simp
  show ?case
  proof (cases err)
    case None
    with st Cons.IH[OF s'] show ?thesis by simp
  next
    case (Some x)
    with st s' show ?thesis by simp
  qed
qed

lemma graph_symmetric_foldl_touch:
  "graph_symmetric s \<Longrightarrow> graph_symmetric (foldl (touch now) s hits)"
  by (induction hits arbitrary: s) (simp_all add: graph_symmetric_def touch_def)

definition linked_invariants :: "system \<Rightarrow> bool" where
  "linked_invariants s = (within_sizes s \<and> graph_symmetric s)"

lemma linked_invariants_step:
  assumes "linked_invariants s"
  shows "linked_invariants (step x s)"
proof -
  have w: "within_sizes (step x s)"
    using assms by (simp add: linked_invariants_def within_sizes_step)
  have g: "graph_symmetric s"
    using assms by (simp add: linked_invariants_def)
  have "graph_symmetric (step x s)"
  proof (cases x)
    case (Store message_id cont importance emb now)
    show ?thesis
    proof (cases emb)
      case (Inl err)
      with Store g show ?thesis
        by (simp add: store_interaction_failed)
    next
      case (Inr e)
      have "graph_symmetric (appended message_id cont importance e now s)"
        using g by (simp add: graph_symmetric_def appended_def)
      with Store Inr show ?thesis
        by (simp add: store_interaction_appended update_memory_connections_def
            graph_symmetric_link_loop split: option.split)
    qed
  next
    case (Retrieve q k db now)
    have "long_term_table s = []"
      using assms by (simp add: linked_invariants_def within_sizes_def)
    then obtain hits where "snd (retrieve_relevant_memories q k db now s) = foldl (touch now) s hits"
      using retrieve_without_rows by blast
    with Retrieve g show ?thesis
      by (simp add: graph_symmetric_foldl_touch)
  next
    case (Consolidate now db)
    have "snd (consolidate_pass now db s) =
          s\<lparr>memory_controller := (memory_controller s)\<lparr>last_consolidation := now\<rparr>\<rparr>"
      using assms
      by (intro consolidate_pass_within) (simp_all add: linked_invariants_def within_sizes_def)
    with Consolidate g show ?thesis
      by (simp add: graph_symmetric_def)
  qed
  with w show ?thesis
    by (simp add: linked_invariants_def)
qed

lemma linked_invariants_run: "linked_invariants s \<Longrightarrow> linked_invariants (run xs s)"
  by (induction xs arbitrary: s) (simp_all add: linked_invariants_step)

lemma linked_invariants_init: "linked_invariants (init t0)"
proof -
  have "graph_symmetric (init t0)"
    by (simp add: graph_symmetric_def init_def)
  with within_sizes_init[of t0] show ?thesis
    by (simp only: linked_invariants_def simp_thms)
qed


section \<open>Three stored vectors\<close>

definition c7_a :: "real list" where
  "c7_a = [1, 0, 0, 0, 0]"

definition c7_b :: "real list" where
  "c7_b = [17, 10, 3, 1, 1]"

definition c7_c :: "real list" where
  "c7_c = [1, 0, 1, - 1, 1]"

lemma sqrt_400: "sqrt 400 = 20"
  by (rule real_sqrt_unique) simp_all

lemma sqrt_4: "sqrt 4 = 2"
  by (rule real_sqrt_unique) simp_all

lemma c7_lengths: "length c7_a = 5" "length c7_b = 5" "length c7_c = 5"
  by (simp_all add: c7_a_def c7_b_def c7_c_def)

lemma c7_norms: "linalg_norm c7_a = 1" "linalg_norm c7_b = 20" "linalg_norm c7_c = 2"
  by (simp_all add: c7_a_def c7_b_def c7_c_def linalg_norm_def np_dot_def sqrt_400 sqrt_4)

lemma c7_dots: "np_dot c7_b c7_a = 17" "np_dot c7_c c7_a = 1" "np_dot c7_c c7_b = 20"
  by (simp_all add: c7_a_def c7_b_def c7_c_def np_dot_def)

definition c7_sA :: system where
  "c7_sA = run [Store ''a'' [] 0.5 (Inr (Some c7_a)) 0] (init 0)"

definition c7_sAB :: system where
  "c7_sAB = step (Store ''b'' [] 0.5 (Inr (Some c7_b)) 1) c7_sA"

definition c7_sABC :: system where
  "c7_sABC = step (Store ''c'' [] 0.5 (Inr (Some c7_c)) 2) c7_sAB"

lemma c7_sA_state:
  "next_ref c7_sA = 1" "working_memory c7_sA = [0]" "short_term_memory c7_sA = []"
  "node_id (heap c7_sA 0) = ''mem_a''" "embedding (heap c7_sA 0) = Some c7_a"
  "connections (heap c7_sA 0) = []" "memory_graph c7_sA k = []"
  by (simp_all add: c7_sA_def store_interaction_def update_memory_connections_def link_step_def
      Let_def init_def deque_append_def working_maxlen_def)

lemma c7_sAB_state:
  "next_ref c7_sAB = 2" "working_memory c7_sAB = [0, 1]" "short_term_memory c7_sAB = []"
  "node_id (heap c7_sAB 0) = ''mem_a''" "embedding (heap c7_sAB 0) = Some c7_a"
  "node_id (heap c7_sAB 1) = ''mem_b''" "embedding (heap c7_sAB 1) = Some c7_b"
  by (simp_all add: c7_sAB_def c7_sA_def store_interaction_def update_memory_connections_def
      link_step_def cosine_similarity_def add_link_def Let_def init_def deque_append_def
      working_maxlen_def c7_lengths c7_norms c7_dots)

lemma c7_sAB_state_Suc:
  "node_id (heap c7_sAB (Suc 0)) = ''mem_b''" "embedding (heap c7_sAB (Suc 0)) = Some c7_b"
  using c7_sAB_state by simp_all

text \<open>
  C7. Let a node with embedding \<open>e\<close> be stored; \<open>n\<close> is its reference and \<open>nid\<close> its
  id. Let \<open>others\<close> be the other nodes of the working tier (after the append) and of the
  short-term tier, in order, whose id is not \<open>nid\<close>, their embeddings having the length of
  \<open>e\<close>. A link is made with exactly those of them that have an embedding with a cosine
  similarity to \<open>e\<close> above 0.7 (a similarity that a zero magnitude leaves undefined makes
  no link): the link list of the new node and the entry of the adjacency index under
  \<open>nid\<close> get the pairs of the id of the other node and the similarity; the link list
  of every other object and the entry of the index under every other id get the pair of
  \<open>nid\<close> and the same similarity for each link with that object or that id, and nothing
  else. In every state the system reaches, the adjacency index is symmetric: \<open>(b, c)\<close>
  is listed under \<open>a\<close> exactly when \<open>(a, c)\<close> is listed under \<open>b\<close>.
\<close>

theorem links_created:
  assumes s': "s' = snd (store_interaction message_id cont importance (Inr (Some e)) now s)"
    and n: "n = next_ref s"
    and nid: "nid = ''mem_'' @ message_id"
    and others: "others = filter (\<lambda>m. m \<noteq> n \<and> node_id (heap s m) \<noteq> nid)
        (deque_append working_maxlen (working_memory s) n @ map snd (short_term_memory s))"
    and shapes: "list_all (\<lambda>m. case embedding (heap s m) of None \<Rightarrow> True
                                  | Some e' \<Rightarrow> length e' = length e) others"
    and linked: "linked = concat (map (\<lambda>m. case embedding (heap s m) of
          None \<Rightarrow> []
        | Some e' \<Rightarrow> if linalg_norm e * linalg_norm e' \<noteq> 0 \<and> cosine e e' > 0.7
                     then [(m, cosine e e')] else []) others)"
  shows "connections (heap s' n) = map (\<lambda>(m, c). (node_id (heap s m), c)) linked
    \<and> memory_graph s' nid = memory_graph s nid @ map (\<lambda>(m, c). (node_id (heap s m), c)) linked
    \<and> (r \<noteq> n \<longrightarrow> connections (heap s' r) =
          connections (heap s r) @ map (\<lambda>(m, c). (nid, c)) (filter (\<lambda>(m, c). m = r) linked))
    \<and> (k \<noteq> nid \<longrightarrow> memory_graph s' k =
          memory_graph s k
            @ map (\<lambda>(m, c). (nid, c)) (filter (\<lambda>(m, c). node_id (heap s m) = k) linked))
    \<and> ((b, c) \<in> set (memory_graph (run ops (init t0)) a))
        = ((a, c) \<in> set (memory_graph (run ops (init t0)) b))"
proof -
  define s1 where "s1 = appended message_id cont importance (Some e) now s"
  define all where "all = deque_append working_maxlen (working_memory s) n
      @ map snd (short_term_memory s)"
  let ?P = "\<lambda>m. m \<noteq> n \<and> node_id (heap s m) \<noteq> nid"
  let ?g = "\<lambda>m. case embedding (heap s m) of
          None \<Rightarrow> []
        | Some e' \<Rightarrow> if linalg_norm e * linalg_norm e' \<noteq> 0 \<and> cosine e e' > 0.7
                     then [(m, cosine e e')] else []"
  have h1n: "heap s1 n = new_node message_id cont importance (Some e) now"
    by (simp add: s1_def appended_def n)
  have h1m: "heap s1 m = heap s m" if "m \<noteq> n" for m
    using that by (simp add: s1_def appended_def n)
  have nid1: "node_id (heap s1 n) = nid"
    by (simp add: h1n new_node_def nid)
  have g1: "memory_graph s1 = memory_graph s"
    by (simp add: s1_def appended_def)
  have c1: "connections (heap s1 n) = []"
    by (simp add: h1n new_node_def)
  have s'eq: "s' = snd (link_loop n e all s1)"
    by (simp add: s' store_interaction_appended update_memory_connections_def appended_def
        new_node_def s1_def all_def n)
  have oth: "others = filter ?P all"
    by (simp add: others all_def)
  have shape: "case embedding (heap s m) of None \<Rightarrow> True | Some e' \<Rightarrow> length e' = length e"
    if "m \<in> set all" "?P m" for m
    using that shapes by (simp add: oth list_all_iff)
  have id1: "node_id (heap s1 m) = nid" if "\<not> ?P m" for m
  proof (cases "m = n")
    case True
    then show ?thesis by (simp add: nid1)
  next
    case False
    with that show ?thesis by (simp add: h1m)
  qed
  have nr: "list_all (\<lambda>m. \<not> link_raises e (node_id (heap s1 n)) (heap s1 m)) all"
    unfolding list_all_iff nid1
  proof
    fix m
    assume m: "m \<in> set all"
    show "\<not> link_raises e nid (heap s1 m)"
    proof (cases "?P m")
      case True
      with shape[OF m] h1m[of m] show ?thesis
        by (auto simp: link_raises_def split: option.splits)
    next
      case False
      then show ?thesis
        using id1[of m] by (simp add: link_raises_def)
    qed
  qed
  have lk: "links_of e nid (heap s1) all = linked"
    unfolding links_of_def linked oth
  proof (rule concat_map_skip)
    fix m
    assume "m \<in> set all" and "\<not> ?P m"
    then show "(case link_strength e nid (heap s1 m) of None \<Rightarrow> [] | Some c \<Rightarrow> [(m, c)]) = []"
      using id1[of m] by (simp add: link_strength_def)
  next
    fix m
    assume m: "m \<in> set all" and P: "?P m"
    with shape[OF m] h1m[of m]
    show "(case link_strength e nid (heap s1 m) of None \<Rightarrow> [] | Some c \<Rightarrow> [(m, c)]) = ?g m"
      by (auto simp: link_strength_def cosine_def split: option.splits)
  qed
  have conn: "connections (heap s' r) =
      connections (heap s1 r) @ conn_entries n nid (heap s1) r linked" for r
    using link_loop_effect[OF nr] by (simp add: s'eq nid1 lk)
  have graph: "memory_graph s' k = memory_graph s k @ graph_entries nid (heap s1) k linked" for k
    using link_loop_effect[OF nr] by (simp add: s'eq nid1 lk g1)
  have mem: "m \<noteq> n \<and> node_id (heap s m) \<noteq> nid" if "(m, c) \<in> set linked" for m c
    using that by (auto simp: linked others split: option.splits if_splits)
  have mem1: "node_id (heap s1 m) = node_id (heap s m) \<and> node_id (heap s1 m) \<noteq> nid"
    if "(m, c) \<in> set linked" for m c
    using mem[OF that] by (simp add: h1m)
  have e1: "conn_entries n nid (heap s1) n linked = map (\<lambda>(m, c). (node_id (heap s m), c)) linked"
    unfolding conn_entries_def
    by (rule concat_map_singletons) (use mem mem1 in \<open>auto split: prod.splits\<close>)
  have e2: "conn_entries n nid (heap s1) r linked
      = map (\<lambda>(m, c). (nid, c)) (filter (\<lambda>(m, c). m = r) linked)" if "r \<noteq> n"
    unfolding conn_entries_def
    by (rule concat_map_optional) (use that in \<open>auto split: prod.splits\<close>)
  have e3: "graph_entries nid (heap s1) nid linked
      = map (\<lambda>(m, c). (node_id (heap s m), c)) linked"
    unfolding graph_entries_def
    by (rule concat_map_singletons) (use mem1 in \<open>auto split: prod.splits\<close>)
  have e4: "graph_entries nid (heap s1) k linked
      = map (\<lambda>(m, c). (nid, c)) (filter (\<lambda>(m, c). node_id (heap s m) = k) linked)"
    if "k \<noteq> nid"
    unfolding graph_entries_def
    by (rule concat_map_optional) (use that mem1 in \<open>auto split: prod.splits\<close>)
  have "linked_invariants (run ops (init t0))"
    by (rule linked_invariants_run[OF linked_invariants_init])
  then have sym: "((b, c) \<in> set (memory_graph (run ops (init t0)) a))
        = ((a, c) \<in> set (memory_graph (run ops (init t0)) b))"
    by (simp add: linked_invariants_def graph_symmetric_def)
  have 1: "connections (heap s' n) = map (\<lambda>(m, c). (node_id (heap s m), c)) linked"
    by (simp add: conn c1 e1)
  have 2: "memory_graph s' nid = memory_graph s nid
      @ map (\<lambda>(m, c). (node_id (heap s m), c)) linked"
    by (simp add: graph e3)
  have 3: "r \<noteq> n \<longrightarrow> connections (heap s' r) =
          connections (heap s r) @ map (\<lambda>(m, c). (nid, c)) (filter (\<lambda>(m, c). m = r) linked)"
    by (simp add: conn e2 h1m)
  have 4: "k \<noteq> nid \<longrightarrow> memory_graph s' k =
          memory_graph s k
            @ map (\<lambda>(m, c). (nid, c)) (filter (\<lambda>(m, c). node_id (heap s m) = k) linked)"
    by (simp add: graph e4)
  from 1 2 3 4 sym show ?thesis
    by (simp only: simp_thms)
qed

theorem links_created_witness:
  "connections (heap c7_sAB 1) = [(''mem_a'', 0.85)]
   \<and> connections (heap c7_sAB 0) = [(''mem_b'', 0.85)]
   \<and> memory_graph c7_sAB ''mem_b'' = [(''mem_a'', 0.85)]
   \<and> memory_graph c7_sAB ''mem_a'' = [(''mem_b'', 0.85)]
   \<and> connections (heap c7_sABC 2) = []"
proof -
  have o1: "[0] = filter (\<lambda>m. m \<noteq> 1 \<and> node_id (heap c7_sA m) \<noteq> ''mem_b'')
        (deque_append working_maxlen (working_memory c7_sA) 1 @ map snd (short_term_memory c7_sA))"
    by (simp add: c7_sA_state deque_append_def working_maxlen_def)
  have sh1: "list_all (\<lambda>m. case embedding (heap c7_sA m) of None \<Rightarrow> True
                                  | Some e' \<Rightarrow> length e' = length c7_b) [0]"
    by (simp add: c7_sA_state c7_lengths)
  have l1: "[(0, 0.85)] = concat (map (\<lambda>m. case embedding (heap c7_sA m) of
          None \<Rightarrow> []
        | Some e' \<Rightarrow> if linalg_norm c7_b * linalg_norm e' \<noteq> 0 \<and> cosine c7_b e' > 0.7
                     then [(m, cosine c7_b e')] else []) [0])"
    by (simp add: c7_sA_state cosine_def c7_norms c7_dots)
  have o2: "[0, 1] = filter (\<lambda>m. m \<noteq> 2 \<and> node_id (heap c7_sAB m) \<noteq> ''mem_c'')
        (deque_append working_maxlen (working_memory c7_sAB) 2 @ map snd (short_term_memory c7_sAB))"
    by (simp add: c7_sAB_state c7_sAB_state_Suc deque_append_def working_maxlen_def)
  have sh2: "list_all (\<lambda>m. case embedding (heap c7_sAB m) of None \<Rightarrow> True
                                  | Some e' \<Rightarrow> length e' = length c7_c) [0, 1]"
    by (simp add: c7_sAB_state c7_sAB_state_Suc c7_lengths)
  have l2: "[] = concat (map (\<lambda>m. case embedding (heap c7_sAB m) of
          None \<Rightarrow> []
        | Some e' \<Rightarrow> if linalg_norm c7_c * linalg_norm e' \<noteq> 0 \<and> cosine c7_c e' > 0.7
                     then [(m, cosine c7_c e')] else []) [0, 1])"
    by (simp add: c7_sAB_state c7_sAB_state_Suc cosine_def c7_norms c7_dots)
  have sAB: "c7_sAB = snd (store_interaction ''b'' [] 0.5 (Inr (Some c7_b)) 1 c7_sA)"
    by (simp add: c7_sAB_def)
  have sABC: "c7_sABC = snd (store_interaction ''c'' [] 0.5 (Inr (Some c7_c)) 2 c7_sAB)"
    by (simp add: c7_sABC_def)
  have n1: "1 = next_ref c7_sA" and n2: "2 = next_ref c7_sAB"
    by (simp_all add: c7_sA_state c7_sAB_state)
  have i1: "''mem_b'' = ''mem_'' @ ''b''" and i2: "''mem_c'' = ''mem_'' @ ''c''"
    by simp_all
  from links_created[OF sAB n1 i1 o1 sh1 l1, where r = 0 and k = "''mem_a''"]
    links_created[OF sABC n2 i2 o2 sh2 l2]
  show ?thesis
    by (simp add: c7_sA_state)
qed



section \<open>Spreading activation, link by link\<close>

lemma map_of_dict_set: "map_of (dict_set d k v) k' = (if k' = k then Some v else map_of d k')"
  by (induction d k v rule: dict_set.induct) auto

lemma spread_links_Cons:
  "spread_links st cur d (l # ls) acc = spread_links st cur d ls (spread_links st cur d [l] acc)"
  by (cases l; cases acc) (simp add: Let_def split: option.split)

lemma spread_links_nan: "spread_links st NaN d ls (sc, q) = (sc, q)"
  by (induction ls) auto

text \<open>
  Five nodes. \<open>mem_a\<close> is linked to \<open>mem_b\<close>, \<open>mem_c\<close> and \<open>mem_e\<close> with strength 0.8,
  \<open>mem_b\<close> to \<open>mem_d\<close> with strength 0.9. Only \<open>mem_b\<close> is in the short-term dictionary.
\<close>

definition c2_heap :: "ref \<Rightarrow> MemoryNode" where
  "c2_heap = (\<lambda>_. empty_node)
     (0 := empty_node\<lparr>node_id := ''mem_a'',
             connections := [(''mem_b'', 0.8), (''mem_c'', 0.8), (''mem_e'', 0.8)]\<rparr>,
      1 := empty_node\<lparr>node_id := ''mem_b'', connections := [(''mem_d'', 0.9)]\<rparr>,
      2 := empty_node\<lparr>node_id := ''mem_c''\<rparr>,
      3 := empty_node\<lparr>node_id := ''mem_e''\<rparr>)"

definition c2_short_term :: "(string \<times> ref) list" where
  "c2_short_term = [(''mem_b'', 1)]"

text \<open>
  C2. When the node popped from the queue has not been visited, it is marked visited and
  its links are processed one after the other. Let the popped activation be the number
  \<open>a\<close> and \<open>v = a * strength * 0.7\<close> the value propagated over the link
  \<open>(nid, strength)\<close>. If \<open>v\<close> is above 0.1, the score of \<open>nid\<close> becomes \<open>v\<close> when
  it had none, the larger of its score and \<open>v\<close> when it had one (a score that is not a
  number stays); if \<open>v\<close> is not above 0.1, nothing changes. The score of no other id
  changes. The queue gets one more entry exactly when \<open>v\<close> is above 0.1, \<open>nid\<close> had
  no score and \<open>nid\<close> is a key of the short-term dictionary: the entry is the node
  stored there, with \<open>v\<close>; a neighbour that is not in the short-term dictionary is a
  leaf. An activation that is not a number propagates nothing. From the activation 0.9
  over a link of strength 0.8 the score recorded for a neighbour without a score is 0.504.
\<close>

theorem spreading_step:
  assumes "node_id (h r) \<notin> set visited"
    and "spread_links st (Num a) 0.7 [(nid, strength)] (sc, q) = (sc', q')"
    and "v = a * strength * 0.7"
  shows "spread_loop h st 0.7 ((r, Num a) # q0) visited sc0 =
           (case spread_links st (Num a) 0.7 (connections (h r)) (sc0, q0) of
              (sc1, q1) \<Rightarrow> spread_loop h st 0.7 q1 (node_id (h r) # visited) sc1)
    \<and> spread_links st (Num a) 0.7 ((nid, strength) # ls) (sc, q)
         = spread_links st (Num a) 0.7 ls (sc', q')
    \<and> (0.1 < v \<and> map_of sc nid = None \<longrightarrow> map_of sc' nid = Some (Num v))
    \<and> (0.1 < v \<and> map_of sc nid = Some (Num old) \<longrightarrow> map_of sc' nid = Some (Num (max old v)))
    \<and> (0.1 < v \<and> map_of sc nid = Some NaN \<longrightarrow> map_of sc' nid = Some NaN)
    \<and> (\<not> 0.1 < v \<longrightarrow> sc' = sc \<and> q' = q)
    \<and> (k \<noteq> nid \<longrightarrow> map_of sc' k = map_of sc k)
    \<and> q' = (if 0.1 < v \<and> map_of sc nid = None
             then (case map_of st nid of None \<Rightarrow> q | Some r' \<Rightarrow> q @ [(r', Num v)])
             else q)
    \<and> spread_links st NaN 0.7 ls' (sc, q) = (sc, q)
    \<and> (a = 0.9 \<and> strength = 0.8 \<and> map_of sc nid = None \<longrightarrow> map_of sc' nid = Some (Num 0.504))"
proof -
  have 1: "spread_loop h st 0.7 ((r, Num a) # q0) visited sc0 =
           (case spread_links st (Num a) 0.7 (connections (h r)) (sc0, q0) of
              (sc1, q1) \<Rightarrow> spread_loop h st 0.7 q1 (node_id (h r) # visited) sc1)"
    using assms(1) by simp
  have 2: "spread_links st (Num a) 0.7 ((nid, strength) # ls) (sc, q)
      = spread_links st (Num a) 0.7 ls (sc', q')"
    using spread_links_Cons[of st "Num a" "0.7" "(nid, strength)" ls "(sc, q)"] assms(2) by simp
  have 3: "0.1 < v \<and> map_of sc nid = None \<longrightarrow> map_of sc' nid = Some (Num v)"
    using assms(2,3) by (auto simp: Let_def map_of_dict_set split: option.splits)
  have 4: "0.1 < v \<and> map_of sc nid = Some (Num old) \<longrightarrow> map_of sc' nid = Some (Num (max old v))"
    using assms(2,3) by (auto simp: Let_def map_of_dict_set py_max_def max_def)
  have 5: "0.1 < v \<and> map_of sc nid = Some NaN \<longrightarrow> map_of sc' nid = Some NaN"
    using assms(2,3) by (auto simp: Let_def map_of_dict_set py_max_def)
  have 6: "\<not> 0.1 < v \<longrightarrow> sc' = sc \<and> q' = q"
    using assms(2,3) by (auto simp: Let_def)
  have 7: "k \<noteq> nid \<longrightarrow> map_of sc' k = map_of sc k"
    using assms(2) by (auto simp: Let_def map_of_dict_set split: option.splits if_splits)
  have 8: "q' = (if 0.1 < v \<and> map_of sc nid = None
             then (case map_of st nid of None \<Rightarrow> q | Some r' \<Rightarrow> q @ [(r', Num v)])
             else q)"
    using assms(2,3) by (auto simp: Let_def split: option.splits if_splits)
  have 9: "spread_links st NaN 0.7 ls' (sc, q) = (sc, q)"
    by (rule spread_links_nan)
  have 10: "a = 0.9 \<and> strength = 0.8 \<and> map_of sc nid = None \<longrightarrow> map_of sc' nid = Some (Num 0.504)"
  proof (intro impI, elim conjE)
    assume c: "a = 0.9" "strength = 0.8" and n: "map_of sc nid = None"
    have "v = 0.9 * 0.8 * 0.7"
      unfolding assms(3) c by (rule refl)
    then have "v = 0.504"
      by simp
    with 3 n show "map_of sc' nid = Some (Num 0.504)"
      by simp
  qed
  from 1 2 3 4 5 6 7 8 9 10 show ?thesis
    by blast
qed

text \<open>
  The seeds \<open>mem_a\<close> (0.9), \<open>mem_c\<close> (0.3) and \<open>mem_e\<close> (0.95). From \<open>mem_a\<close> the value
  0.504 reaches \<open>mem_b\<close>, which had no score and is in the short-term dictionary, so it is
  queued and passes 0.31752 on to the leaf \<open>mem_d\<close>; it replaces the smaller score 0.3 of
  \<open>mem_c\<close>, and leaves the larger score 0.95 of \<open>mem_e\<close>.
\<close>

theorem spreading_step_witness:
  "activation_scores c2_heap c2_short_term [0, 2, 3] [Num 0.9, Num 0.3, Num 0.95] 0.7
     = [(''mem_a'', Num 0.9), (''mem_c'', Num 0.504), (''mem_e'', Num 0.95),
        (''mem_b'', Num 0.504), (''mem_d'', Num 0.31752)]
   \<and> spread_links c2_short_term (Num 0.9) 0.7 [(''mem_b'', 0.8)]
        ([(''mem_a'', Num 0.9), (''mem_c'', Num 0.3), (''mem_e'', Num 0.95)],
         [(2, Num 0.3), (3, Num 0.95)])
      = ([(''mem_a'', Num 0.9), (''mem_c'', Num 0.3), (''mem_e'', Num 0.95), (''mem_b'', Num 0.504)],
         [(2, Num 0.3), (3, Num 0.95), (1, Num 0.504)])
   \<and> map_of (fst (spread_links c2_short_term (Num 0.9) 0.7 [(''mem_c'', 0.8)]
        ([(''mem_a'', Num 0.9), (''mem_c'', Num 0.3), (''mem_e'', Num 0.95), (''mem_b'', Num 0.504)],
         [(2, Num 0.3), (3, Num 0.95), (1, Num 0.504)]))) ''mem_c'' = Some (Num (max 0.3 0.504))
   \<and> snd (spread_links c2_short_term (Num 0.9) 0.7 [(''mem_c'', 0.8)]
        ([(''mem_a'', Num 0.9), (''mem_c'', Num 0.3), (''mem_e'', Num 0.95), (''mem_b'', Num 0.504)],
         [(2, Num 0.3), (3, Num 0.95), (1, Num 0.504)]))
      = [(2, Num 0.3), (3, Num 0.95), (1, Num 0.504)]"
proof -
  let ?sc = "[(''mem_a'', Num 0.9), (''mem_c'', Num 0.3), (''mem_e'', Num 0.95),
              (''mem_b'', Num 0.504)]"
  let ?q = "[(2::nat, Num 0.3), (3, Num 0.95), (1, Num 0.504)]"
  obtain sc' q' where sl:
    "spread_links c2_short_term (Num 0.9) 0.7 [(''mem_c'', 0.8)] (?sc, ?q) = (sc', q')"
    by (cases "spread_links c2_short_term (Num 0.9) 0.7 [(''mem_c'', 0.8)] (?sc, ?q)")
  have nv: "node_id (c2_heap 0) \<notin> set []"
    by simp
  have v: "(0.504::real) = 0.9 * 0.8 * 0.7"
    by simp
  have old: "map_of ?sc ''mem_c'' = Some (Num 0.3)"
    by simp
  have a: "activation_scores c2_heap c2_short_term [0, 2, 3] [Num 0.9, Num 0.3, Num 0.95] 0.7
     = [(''mem_a'', Num 0.9), (''mem_c'', Num 0.504), (''mem_e'', Num 0.95),
        (''mem_b'', Num 0.504), (''mem_d'', Num 0.31752)]"
    by (simp add: activation_scores_def seed_scores_def c2_heap_def c2_short_term_def
        empty_node_def Let_def py_max_def)
  have b: "spread_links c2_short_term (Num 0.9) 0.7 [(''mem_b'', 0.8)]
        ([(''mem_a'', Num 0.9), (''mem_c'', Num 0.3), (''mem_e'', Num 0.95)],
         [(2, Num 0.3), (3, Num 0.95)])
      = (?sc, ?q)"
    by (simp add: c2_short_term_def Let_def)
  from spreading_step[where h = c2_heap and r = 0 and visited = "[]" and ?q0.0 = "[]"
      and ?sc0.0 = "[]" and ls = "[]" and k = "''mem_a''" and old = "0.3" and ls' = "[]",
      OF nv sl v] sl a b old
  show ?thesis
    by simp
qed



section \<open>What a consolidation pass persists and what it discards\<close>

lemma partition_tail_filter:
  "partition_tail h rs (to_persist, to_remove) =
     (to_persist @ filter (\<lambda>r. should_persist (h r)) rs,
      to_remove @ map (\<lambda>r. node_id (h r)) (filter (\<lambda>r. \<not> should_persist (h r)) rs))"
  by (induction rs arbitrary: to_persist to_remove) simp_all

lemma pop_all_filter: "pop_all ks d = filter (\<lambda>kv. fst kv \<notin> set ks) d"
proof (induction ks arbitrary: d)
  case Nil
  show ?case by (simp add: pop_all_def)
next
  case (Cons k ks)
  have "pop_all (k # ks) d = pop_all ks (dict_pop k d)"
    by (simp add: pop_all_def)
  also have "\<dots> = filter (\<lambda>kv. fst kv \<notin> set ks) (filter (\<lambda>kv. fst kv \<noteq> k) d)"
    by (simp only: Cons.IH dict_pop_def)
  also have "\<dots> = filter (\<lambda>kv. fst kv \<notin> set (k # ks)) d"
    by (auto intro: filter_cong)
  finally show ?case .
qed

lemma sorted_desc_sorted: "sorted (map (\<lambda>x. - k x) (sorted_desc k xs))"
  by (simp add: sorted_desc_def)

lemma sorted_desc_stable:
  "filter (\<lambda>x. k x = v) (sorted_desc k xs) = filter (\<lambda>x. k x = v) xs"
  using sort_key_stable[of "\<lambda>x. - k x" "- v" xs] by (simp add: sorted_desc_def)

lemma persist_to_long_term_rows:
  "\<exists>p. persist_to_long_term None now m (rows, profiles) = Inr (rows @ [ltm_of m], p)"
  by (simp add: persist_to_long_term_def split: option.split)

lemma persist_all_rows:
  "\<exists>profiles'. persist_all None now h rs (rows, profiles) =
     Inr (rows @ map (\<lambda>r. ltm_of (h r)) rs, profiles')"
proof (induction rs arbitrary: rows profiles)
  case Nil
  show ?case by simp
next
  case (Cons r rs)
  obtain p where "persist_to_long_term None now (h r) (rows, profiles) = Inr (rows @ [ltm_of (h r)], p)"
    using persist_to_long_term_rows by blast
  with Cons[of "rows @ [ltm_of (h r)]" p] show ?case
    by simp
qed

text \<open>What a pass does when the database works, in terms of the lists of the controller.\<close>

lemma consolidate_pass_working_db:
  assumes "consolidate_memories (memory_controller s) (heap s) now (working_memory s)
             (map snd (short_term_memory s)) = ((to_persist, to_remove), ctrl)"
  shows "\<exists>profiles'. consolidate_pass now None s =
      (None, s\<lparr>memory_controller := ctrl,
               short_term_memory := pop_all to_remove (short_term_memory s),
               long_term_table := long_term_table s @ map (\<lambda>r. ltm_of (heap s r)) to_persist,
               sender_profiles := profiles'\<rparr>)"
proof -
  obtain profiles' where
    "persist_all None now (heap s) to_persist (long_term_table s, sender_profiles s) =
       Inr (long_term_table s @ map (\<lambda>r. ltm_of (heap s r)) to_persist, profiles')"
    using persist_all_rows by blast
  then have "consolidate_pass now None s =
      (None, s\<lparr>memory_controller := ctrl,
               short_term_memory := pop_all to_remove (short_term_memory s),
               long_term_table := long_term_table s @ map (\<lambda>r. ltm_of (heap s r)) to_persist,
               sender_profiles := profiles'\<rparr>)"
    by (simp add: consolidate_pass_def assms Let_def)
  then show ?thesis
    by blast
qed

text \<open>
  Four short-term nodes, stored in an order that is not the order of their ranks, and a
  controller made with \<open>short_term_size = 1\<close>. The ranks are 0.81 for \<open>a\<close> (importance
  0.9), 0.72 for \<open>b\<close> (importance 0.8, one access), 0.36 for \<open>c\<close> (importance 0.4, two
  accesses) and 0.27 for \<open>d\<close> (importance 0.3, six accesses).
\<close>

definition c3_node :: "string \<Rightarrow> real \<Rightarrow> int \<Rightarrow> MemoryNode" where
  "c3_node i importance n = empty_node\<lparr>node_id := i, importance_score := importance,
     access_count := n\<rparr>"

definition c3_heap :: "ref \<Rightarrow> MemoryNode" where
  "c3_heap = (\<lambda>_. empty_node)(0 := c3_node ''a'' 0.9 0, 1 := c3_node ''b'' 0.8 1,
     2 := c3_node ''c'' 0.4 2, 3 := c3_node ''d'' 0.3 6)"

definition c3_system :: system where
  "c3_system = \<lparr>heap = c3_heap, next_ref = 4,
     memory_controller = \<lparr>working_memory_size = 20, short_term_size = 1,
       consolidation_interval = 300, last_consolidation = 0\<rparr>,
     working_memory = [],
     short_term_memory = [(''c'', 2), (''d'', 3), (''a'', 0), (''b'', 1)],
     memory_graph = (\<lambda>_. []), long_term_table = [], sender_profiles = (\<lambda>_. None)\<rparr>"


lemma c3_sorted:
  "short_term_sorted (memory_controller c3_system) (heap c3_system) now
     (working_memory c3_system) (map snd (short_term_memory c3_system)) = [0, 1, 2, 3]"
  by (simp add: c3_system_def c3_heap_def c3_node_def empty_node_def short_term_sorted_def
      to_short_term_def sorted_desc_def short_term_rank_def)



text \<open>
  C3. In a consolidation pass with the database working, let \<open>wsrt\<close> be the working
  list and \<open>srt\<close> the list of the short-term nodes followed by the working nodes beyond
  the working size, each as the controller sorts it, and \<open>tail\<close> the nodes of \<open>srt\<close>
  beyond the short-term size. Then \<open>wsrt\<close> is in descending order of
  \<open>importance * 0.7 + 1 / (1 + seconds / 3600) * 0.3\<close> and \<open>srt\<close> in descending
  order of \<open>importance * (1 - decay_rate)\<close>, nodes of equal rank keeping their order.
  The pass adds to the long-term table one row for each node of \<open>tail\<close> with importance
  above 0.7 or access count above 5, in order, holding the id, content, embedding,
  importance, access count and times of the node, and no other row; it removes from the
  short-term dictionary the entries whose key is the id of one of the other nodes of
  \<open>tail\<close>, which get no row, and no other entry.
\<close>

theorem persistence_partition:
  assumes "wsrt = sorted_desc (\<lambda>r. working_rank now (heap s r)) (working_memory s)"
    and "cand = map snd (short_term_memory s)
                 @ drop (working_memory_size (memory_controller s)) wsrt"
    and "srt = short_term_sorted (memory_controller s) (heap s) now (working_memory s)
                 (map snd (short_term_memory s))"
    and "tail = drop (short_term_size (memory_controller s)) srt"
    and "s' = snd (consolidate_pass now None s)"
  shows "sorted (map (\<lambda>r. - (importance_score (heap s r) * 0.7
              + 1 / (1 + real_of_int (((now - timestamp (heap s r)) div 1000000) mod 86400) / 3600)
                  * 0.3)) wsrt)
    \<and> filter (\<lambda>r. importance_score (heap s r) * 0.7
              + 1 / (1 + real_of_int (((now - timestamp (heap s r)) div 1000000) mod 86400) / 3600)
                  * 0.3 = y) wsrt
        = filter (\<lambda>r. importance_score (heap s r) * 0.7
              + 1 / (1 + real_of_int (((now - timestamp (heap s r)) div 1000000) mod 86400) / 3600)
                  * 0.3 = y) (working_memory s)
    \<and> sorted (map (\<lambda>r. - (importance_score (heap s r) * (1 - decay_rate (heap s r)))) srt)
    \<and> filter (\<lambda>r. importance_score (heap s r) * (1 - decay_rate (heap s r)) = x) srt
        = filter (\<lambda>r. importance_score (heap s r) * (1 - decay_rate (heap s r)) = x) cand
    \<and> fst (consolidate_memories (memory_controller s) (heap s) now (working_memory s)
            (map snd (short_term_memory s))) =
           (filter (\<lambda>r. importance_score (heap s r) > 0.7 \<or> access_count (heap s r) > 5) tail,
            map (\<lambda>r. node_id (heap s r))
              (filter (\<lambda>r. \<not> (importance_score (heap s r) > 0.7 \<or> access_count (heap s r) > 5)) tail))
    \<and> long_term_table s' = long_term_table s
         @ map (\<lambda>r. \<lparr>ltm_id = node_id (heap s r), ltm_content = content (heap s r),
                      ltm_embedding = embedding (heap s r),
                      ltm_importance_score = importance_score (heap s r),
                      ltm_access_count = access_count (heap s r),
                      ltm_last_accessed = last_accessed (heap s r),
                      ltm_created_at = timestamp (heap s r),
                      ltm_metadata = metadata (heap s r)\<rparr>)
             (filter (\<lambda>r. importance_score (heap s r) > 0.7 \<or> access_count (heap s r) > 5) tail)
    \<and> short_term_memory s' =
         filter (\<lambda>kv. fst kv \<notin> set (map (\<lambda>r. node_id (heap s r))
                    (filter (\<lambda>r. \<not> (importance_score (heap s r) > 0.7 \<or> access_count (heap s r) > 5))
                       tail)))
           (short_term_memory s)"
proof -
  let ?keep = "\<lambda>r. importance_score (heap s r) > 0.7 \<or> access_count (heap s r) > 5"
  let ?wrank = "\<lambda>r. importance_score (heap s r) * 0.7
              + 1 / (1 + real_of_int (((now - timestamp (heap s r)) div 1000000) mod 86400) / 3600)
                  * 0.3"
  let ?rank = "\<lambda>r. importance_score (heap s r) * (1 - decay_rate (heap s r))"
  have w: "wsrt = sorted_desc ?wrank (working_memory s)"
    by (simp add: assms(1) working_rank_def timedelta_seconds_def)
  have c: "srt = sorted_desc ?rank cand"
    by (simp add: assms(1,2,3) short_term_sorted_def to_short_term_def short_term_rank_def)
  have 1: "sorted (map (\<lambda>r. - ?wrank r) wsrt)"
    unfolding w by (rule sorted_desc_sorted)
  have 2: "filter (\<lambda>r. ?wrank r = y) wsrt = filter (\<lambda>r. ?wrank r = y) (working_memory s)"
    unfolding w by (rule sorted_desc_stable)
  have 3: "sorted (map (\<lambda>r. - ?rank r) srt)"
    unfolding c by (rule sorted_desc_sorted)
  have 4: "filter (\<lambda>r. ?rank r = x) srt = filter (\<lambda>r. ?rank r = x) cand"
    unfolding c by (rule sorted_desc_stable)
  have cm: "consolidate_memories (memory_controller s) (heap s) now (working_memory s)
            (map snd (short_term_memory s)) =
        ((filter ?keep tail, map (\<lambda>r. node_id (heap s r)) (filter (\<lambda>r. \<not> ?keep r) tail)),
         (memory_controller s)\<lparr>last_consolidation := now\<rparr>)"
    by (simp only: consolidate_memories_def partition_tail_filter assms(3,4) should_persist_def
        append_Nil)
  obtain profiles' where "consolidate_pass now None s =
      (None, s\<lparr>memory_controller := (memory_controller s)\<lparr>last_consolidation := now\<rparr>,
               short_term_memory := pop_all (map (\<lambda>r. node_id (heap s r))
                  (filter (\<lambda>r. \<not> ?keep r) tail)) (short_term_memory s),
               long_term_table := long_term_table s @ map (\<lambda>r. ltm_of (heap s r))
                  (filter ?keep tail),
               sender_profiles := profiles'\<rparr>)"
    using consolidate_pass_working_db[OF cm] by blast
  then have 6: "long_term_table s' = long_term_table s @ map (\<lambda>r. ltm_of (heap s r))
                  (filter ?keep tail)"
    and 7: "short_term_memory s' = pop_all (map (\<lambda>r. node_id (heap s r))
                  (filter (\<lambda>r. \<not> ?keep r) tail)) (short_term_memory s)"
    by (simp_all add: assms(5))
  from cm have 5: "fst (consolidate_memories (memory_controller s) (heap s) now (working_memory s)
            (map snd (short_term_memory s))) =
           (filter ?keep tail, map (\<lambda>r. node_id (heap s r)) (filter (\<lambda>r. \<not> ?keep r) tail))"
    by simp
  from 1 2 3 4 5 6 7 show ?thesis
    by (simp only: ltm_of_def pop_all_filter simp_thms)
qed

text \<open>
  In the state above the sorted list is \<open>a\<close>, \<open>b\<close>, \<open>c\<close>, \<open>d\<close>, so the tail is \<open>b\<close>,
  \<open>c\<close>, \<open>d\<close>: \<open>b\<close> (importance 0.8, one access) and \<open>d\<close> (six accesses) get a row,
  \<open>c\<close> (importance 0.4, two accesses) is removed without one.
\<close>

theorem persistence_partition_witness:
  "short_term_sorted (memory_controller c3_system) (heap c3_system) 5
     (working_memory c3_system) (map snd (short_term_memory c3_system)) = [0, 1, 2, 3]
   \<and> long_term_table (snd (consolidate_pass 5 None c3_system)) =
       [\<lparr>ltm_id = ''b'', ltm_content = [], ltm_embedding = None, ltm_importance_score = 0.8,
         ltm_access_count = 1, ltm_last_accessed = 0, ltm_created_at = 0, ltm_metadata = []\<rparr>,
        \<lparr>ltm_id = ''d'', ltm_content = [], ltm_embedding = None, ltm_importance_score = 0.3,
         ltm_access_count = 6, ltm_last_accessed = 0, ltm_created_at = 0, ltm_metadata = []\<rparr>]
   \<and> short_term_memory (snd (consolidate_pass 5 None c3_system))
       = [(''d'', 3), (''a'', 0), (''b'', 1)]"
proof -
  have tail: "drop (short_term_size (memory_controller c3_system))
      (short_term_sorted (memory_controller c3_system) (heap c3_system) 5
         (working_memory c3_system) (map snd (short_term_memory c3_system))) = [1, 2, 3]"
    by (simp add: c3_sorted) (simp add: c3_system_def)
  note t = persistence_partition[where s = c3_system and now = 5 and x = 0 and y = 0,
      OF refl refl refl refl refl, unfolded tail]
  from t have "long_term_table (snd (consolidate_pass 5 None c3_system)) =
       [\<lparr>ltm_id = ''b'', ltm_content = [], ltm_embedding = None, ltm_importance_score = 0.8,
         ltm_access_count = 1, ltm_last_accessed = 0, ltm_created_at = 0, ltm_metadata = []\<rparr>,
        \<lparr>ltm_id = ''d'', ltm_content = [], ltm_embedding = None, ltm_importance_score = 0.3,
         ltm_access_count = 6, ltm_last_accessed = 0, ltm_created_at = 0, ltm_metadata = []\<rparr>]"
    by (simp add: c3_system_def c3_heap_def c3_node_def empty_node_def)
  moreover from t have "short_term_memory (snd (consolidate_pass 5 None c3_system))
       = [(''d'', 3), (''a'', 0), (''b'', 1)]"
    by (simp add: c3_system_def c3_heap_def c3_node_def empty_node_def)
  ultimately show ?thesis
    by (simp add: c3_sorted)
qed



section \<open>A system started on a database that holds rows\<close>

text \<open>
  \<^verbatim>\<open>CognitiveMemorySystem.__init__\<close> builds the tiers and neither reads nor resets the
  database, so the rows and profiles the database holds when the system starts are
  parameters. \<open>init\<close> is the start on an empty database.
\<close>

definition init_with :: "int \<Rightarrow> LongTermMemory list \<Rightarrow> (string \<Rightarrow> SenderProfile option) \<Rightarrow> system" where
  "init_with now rows profiles = \<lparr>heap = (\<lambda>_. empty_node), next_ref = 0,
     memory_controller = new_controller now, working_memory = [],
     short_term_memory = [], memory_graph = (\<lambda>_. []),
     long_term_table = rows, sender_profiles = profiles\<rparr>"

lemma init_with_empty: "init now = init_with now [] (\<lambda>_. None)"
  by (simp add: init_def init_with_def)







section \<open>A consolidation pass, whatever the database does\<close>



lemma consolidate_memories_controller:
  "snd (consolidate_memories ctrl h now working short_term) = ctrl\<lparr>last_consolidation := now\<rparr>"
  by (simp add: consolidate_memories_def)


lemma consolidate_pass_frame:
  "working_memory (snd (consolidate_pass now db s)) = working_memory s
   \<and> heap (snd (consolidate_pass now db s)) = heap s
   \<and> next_ref (snd (consolidate_pass now db s)) = next_ref s
   \<and> memory_graph (snd (consolidate_pass now db s)) = memory_graph s
   \<and> memory_controller (snd (consolidate_pass now db s))
       = (memory_controller s)\<lparr>last_consolidation := now\<rparr>"
  by (simp add: consolidate_pass_def consolidate_memories_def Let_def
      split: prod.split sum.split)





section \<open>A node in two places\<close>









section \<open>Consolidating twice\<close>











section \<open>What retrieval preserves\<close>

text \<open>
  Retrieval changes the state by allocating an object for a row read from the database
  and by touching the objects it returns. A property kept by both is kept by retrieval.
\<close>

lemma gather_ltm_preserves:
  assumes alloc: "\<And>s l e. P s \<Longrightarrow>
      P (s\<lparr>heap := (heap s)(next_ref s := node_of_ltm now l e), next_ref := Suc (next_ref s)\<rparr>)"
  shows "P s \<Longrightarrow> P (fst (snd (gather_ltm q now ls (s, candidates))))"
proof (induction ls arbitrary: s candidates)
  case Nil
  then show ?case by simp
next
  case (Cons l ls)
  show ?case
  proof (cases "ltm_embedding l")
    case None
    with Cons show ?thesis by simp
  next
    case (Some e)
    show ?thesis
    proof (cases "e = []")
      case True
      with Some Cons show ?thesis by simp
    next
      case False
      show ?thesis
      proof (cases "cosine_similarity q e")
        case (Inl err)
        with Some False Cons.prems show ?thesis by simp
      next
        case (Inr sm)
        have "P (s\<lparr>heap := (heap s)(next_ref s := node_of_ltm now l e),
                 next_ref := Suc (next_ref s)\<rparr>)"
          using Cons.prems by (rule alloc)
        with Some False Inr Cons.IH show ?thesis by simp
      qed
    qed
  qed
qed

lemma foldl_touch_preserves:
  assumes touch: "\<And>s hit. P s \<Longrightarrow> P (touch now s hit)"
  shows "P s \<Longrightarrow> P (foldl (touch now) s hits)"
  by (induction hits arbitrary: s) (simp_all add: touch)

lemma retrieve_preserves:
  assumes alloc: "\<And>s l e. P s \<Longrightarrow>
      P (s\<lparr>heap := (heap s)(next_ref s := node_of_ltm now l e), next_ref := Suc (next_ref s)\<rparr>)"
    and touch: "\<And>s hit. P s \<Longrightarrow> P (touch now s hit)"
    and start: "P s"
  shows "P (snd (retrieve_relevant_memories q k db now s))"
proof (cases q)
  case (Inl err)
  with start show ?thesis by (simp add: retrieve_relevant_memories_def)
next
  case q: (Inr query_embedding)
  show ?thesis
  proof (cases "gather query_embedding (heap s) (working_memory s) []")
    case (Inl err)
    with q start show ?thesis by (simp add: retrieve_relevant_memories_def)
  next
    case c1: (Inr c1)
    show ?thesis
    proof (cases "gather query_embedding (heap s) (map snd (short_term_memory s)) c1")
      case (Inl err)
      with q c1 start show ?thesis by (simp add: retrieve_relevant_memories_def)
    next
      case c2: (Inr c2)
      show ?thesis
      proof (cases "db = Some FailOpen \<or> db = Some FailExecute")
        case True
        with q c1 c2 start show ?thesis by (auto simp: retrieve_relevant_memories_def)
      next
        case False
        obtain err s1 c3 where g:
          "gather_ltm query_embedding now (take 50 (long_term_table s)) (s, c2) = (err, s1, c3)"
          by (cases "gather_ltm query_embedding now (take 50 (long_term_table s)) (s, c2)")
        have "P (fst (snd (gather_ltm query_embedding now (take 50 (long_term_table s)) (s, c2))))"
          using alloc start by (rule gather_ltm_preserves)
        then have s1: "P s1"
          using g by simp
        show ?thesis
        proof (cases err)
          case (Some x)
          with q c1 c2 False g s1 show ?thesis
            by (simp add: retrieve_relevant_memories_def)
        next
          case None
          have "P (foldl (touch now) s1 hits)" for hits
            using touch s1 by (rule foldl_touch_preserves)
          with None q c1 c2 False g show ?thesis
            by (simp add: retrieve_relevant_memories_def Let_def)
        qed
      qed
    qed
  qed
qed

section \<open>The importance of a node and the strength of a link\<close>

text \<open>No operation changes the importance of an object that exists, and references only grow.\<close>

lemma step_importance_frame:
  "r < next_ref v \<Longrightarrow> next_ref v \<le> next_ref (step x v)
     \<and> importance_score (heap (step x v) r) = importance_score (heap v r)"
proof (cases x)
  case (Store message_id cont importance emb now)
  assume r: "r < next_ref v"
  show ?thesis
  proof (cases emb)
    case (Inl err)
    with Store show ?thesis by (simp add: store_interaction_failed)
  next
    case (Inr e)
    have "importance_score (heap (snd (store_interaction message_id cont importance (Inr e) now v)) r)
        = importance_score (heap (appended message_id cont importance e now v) r)"
      by (simp add: store_interaction_appended update_memory_connections_def importance_link_loop
          split: option.split)
    also have "\<dots> = importance_score (heap v r)"
      using r by (simp add: appended_def)
    finally show ?thesis
      using Store Inr by (simp add: store_interaction_next_ref)
  qed
next
  case (Retrieve q k db now)
  assume r: "r < next_ref v"
  have "next_ref v \<le> next_ref (snd (retrieve_relevant_memories q k db now v))
      \<and> importance_score (heap (snd (retrieve_relevant_memories q k db now v)) r)
          = importance_score (heap v r)"
    by (rule retrieve_preserves[where P = "\<lambda>s. next_ref v \<le> next_ref s
          \<and> importance_score (heap s r) = importance_score (heap v r)"])
       (use r in \<open>auto simp: touch_def\<close>)
  with Retrieve show ?thesis by simp
next
  case (Consolidate now db)
  then show ?thesis by (simp add: consolidate_pass_frame)
qed

text \<open>The nodes of the working tier have an importance within [0,1].\<close>

definition working_in_range :: "system \<Rightarrow> bool" where
  "working_in_range s =
     list_all (\<lambda>r. r < next_ref s \<and> 0 \<le> importance_score (heap s r)
                   \<and> importance_score (heap s r) \<le> 1) (working_memory s)"

fun importance_given_in_range :: "op \<Rightarrow> bool" where
  "importance_given_in_range (Store message_id cont importance emb now) =
     (0 \<le> importance \<and> importance \<le> 1)"
| "importance_given_in_range (Retrieve q k db now) = True"
| "importance_given_in_range (Consolidate now db) = True"

lemma set_deque_append: "set (deque_append n xs x) \<subseteq> insert x (set xs)"
  using set_drop_subset[of "length (xs @ [x]) - n" "xs @ [x]"] by (auto simp: deque_append_def)

lemma store_importance:
  "importance_score (heap (snd (store_interaction message_id cont importance (Inr e) now u))
     (next_ref u)) = importance"
  by (simp add: store_interaction_appended update_memory_connections_def importance_link_loop
      split: option.split) (simp add: appended_def new_node_def)

lemma working_in_range_step:
  assumes "working_in_range s" and "importance_given_in_range x"
  shows "working_in_range (step x s)"
proof -
  have old: "r \<in> set (working_memory s) \<Longrightarrow> r < next_ref (step x s)
      \<and> 0 \<le> importance_score (heap (step x s) r) \<and> importance_score (heap (step x s) r) \<le> 1" for r
  proof -
    assume "r \<in> set (working_memory s)"
    with assms(1) have r: "r < next_ref s" "0 \<le> importance_score (heap s r)"
      "importance_score (heap s r) \<le> 1"
      by (simp_all add: working_in_range_def list_all_iff)
    from step_importance_frame[OF r(1), of x] r show ?thesis
      by simp
  qed
  show ?thesis
  proof (cases x)
    case (Store message_id cont importance emb now)
    show ?thesis
    proof (cases emb)
      case (Inl err)
      with Store assms show ?thesis by (simp add: store_interaction_failed)
    next
      case (Inr e)
      have w: "working_memory (step x s) = deque_append working_maxlen (working_memory s) (next_ref s)"
        using store_interaction_tiers[of message_id cont importance e now s] Store Inr
        by (simp add: tier_view_def)
      have new: "next_ref s < next_ref (step x s)"
        "importance_score (heap (step x s) (next_ref s)) = importance"
        using Store Inr by (simp_all add: store_interaction_next_ref store_importance)
      have "r < next_ref (step x s) \<and> 0 \<le> importance_score (heap (step x s) r)
          \<and> importance_score (heap (step x s) r) \<le> 1" if "r \<in> set (working_memory (step x s))" for r
      proof (cases "r = next_ref s")
        case True
        with new assms(2) Store show ?thesis by simp
      next
        case False
        with that w set_deque_append[of working_maxlen "working_memory s" "next_ref s"]
        have "r \<in> set (working_memory s)" by auto
        then show ?thesis by (rule old)
      qed
      then show ?thesis
        by (simp add: working_in_range_def list_all_iff)
    qed
  next
    case (Retrieve q k db now)
    then have "working_memory (step x s) = working_memory s"
      using tier_view_retrieve[of q k db now s] by (simp add: tier_view_def)
    with old show ?thesis
      by (simp add: working_in_range_def list_all_iff)
  next
    case (Consolidate now db)
    then have "working_memory (step x s) = working_memory s"
      by (simp add: consolidate_pass_frame)
    with old show ?thesis
      by (simp add: working_in_range_def list_all_iff)
  qed
qed

lemma working_in_range_run:
  "working_in_range s \<Longrightarrow> list_all importance_given_in_range xs \<Longrightarrow> working_in_range (run xs s)"
  by (induction xs arbitrary: s) (simp_all add: working_in_range_step)

lemma working_in_range_init_with: "working_in_range (init_with t0 rows profiles)"
  by (simp add: working_in_range_def init_with_def)

text \<open>Every link, in the link lists of the objects and in the index, has a strength above 0.7.\<close>

definition links_above :: "system \<Rightarrow> bool" where
  "links_above s =
     ((\<forall>r k c. (k, c) \<in> set (connections (heap s r)) \<longrightarrow> 0.7 < c)
      \<and> (\<forall>a k c. (k, c) \<in> set (memory_graph s a) \<longrightarrow> 0.7 < c))"

lemma link_strength_above: "link_strength e nid M = Some c \<Longrightarrow> 0.7 < c"
  by (auto simp: link_strength_def split: if_splits option.splits)

lemma links_above_add_link:
  assumes "links_above s" and "0.7 < c"
  shows "links_above (add_link new m c s)"
  using assms
  by (auto simp: links_above_def add_link_connections add_link_graph split: if_splits)

lemma links_above_link_step:
  assumes "links_above s"
  shows "links_above (snd (link_step new e m s))"
proof (cases "link_strength e (node_id (heap s new)) (heap s m)")
  case None
  with assms show ?thesis by (simp add: link_step_eq)
next
  case (Some c)
  then have "0.7 < c" by (rule link_strength_above)
  with assms Some show ?thesis
    by (simp add: link_step_eq links_above_add_link)
qed

lemma links_above_link_loop:
  "links_above s \<Longrightarrow> links_above (snd (link_loop new e ms s))"
proof (induction ms arbitrary: s)
  case Nil
  then show ?case by simp
next
  case (Cons m ms)
  obtain err s' where st: "link_step new e m s = (err, s')"
    by (cases "link_step new e m s")
  then have s': "links_above s'"
    using links_above_link_step[OF Cons.prems, of new e m] by simp
  show ?case
  proof (cases err)
    case None
    with st Cons.IH[OF s'] show ?thesis by simp
  next
    case (Some x)
    with st s' show ?thesis by simp
  qed
qed

lemma links_above_step:
  assumes "links_above s"
  shows "links_above (step x s)"
proof (cases x)
  case (Store message_id cont importance emb now)
  show ?thesis
  proof (cases emb)
    case (Inl err)
    with Store assms show ?thesis by (simp add: store_interaction_failed)
  next
    case (Inr e)
    have "links_above (appended message_id cont importance e now s)"
      using assms by (simp add: links_above_def appended_def new_node_def)
    then have "links_above (snd (store_interaction message_id cont importance (Inr e) now s))"
      by (simp add: store_interaction_appended update_memory_connections_def
          links_above_link_loop split: option.split)
    with Store Inr show ?thesis by simp
  qed
next
  case (Retrieve q k db now)
  have "links_above (snd (retrieve_relevant_memories q k db now s))"
    by (rule retrieve_preserves[where P = links_above])
       (use assms in \<open>auto simp: links_above_def touch_def node_of_ltm_def\<close>)
  with Retrieve show ?thesis by simp
next
  case (Consolidate now db)
  with assms show ?thesis
    by (simp add: links_above_def consolidate_pass_frame)
qed

lemma links_above_run: "links_above s \<Longrightarrow> links_above (run xs s)"
  by (induction xs arbitrary: s) (simp_all add: links_above_step)

lemma links_above_init_with: "links_above (init_with t0 rows profiles)"
  by (simp add: links_above_def init_with_def empty_node_def)

section \<open>The importance of a sender profile\<close>

lemma persist_to_long_term_profile:
  assumes "em \<noteq> []" and "profiles em = Some p"
  shows "\<exists>rows' profiles' p'.
      persist_to_long_term None now m (rows, profiles) = Inr (rows', profiles')
      \<and> profiles' em = Some p'
      \<and> profile_importance_score p' =
          (if map_of (metadata m) ''sender'' = Some (Some em)
           then min 1 (profile_importance_score p + 0.01) else profile_importance_score p)"
  using assms
  by (auto simp: persist_to_long_term_def truthy_def py_get_def nudge_profile_def
      split: option.splits if_splits)

lemma persist_all_profile:
  assumes "em \<noteq> []"
  shows "profiles em = Some p \<Longrightarrow>
    \<exists>rows' profiles' p'.
      persist_all None now h rs (rows, profiles) = Inr (rows', profiles')
      \<and> profiles' em = Some p'
      \<and> profile_importance_score p' =
          ((\<lambda>y. min 1 (y + 0.01))
             ^^ length (filter (\<lambda>r. map_of (metadata (h r)) ''sender'' = Some (Some em)) rs))
            (profile_importance_score p)"
proof (induction rs arbitrary: rows profiles p)
  case Nil
  then show ?case by simp
next
  case (Cons r rs)
  obtain rows1 profiles1 p1 where 1:
    "persist_to_long_term None now (h r) (rows, profiles) = Inr (rows1, profiles1)"
    "profiles1 em = Some p1"
    "profile_importance_score p1 =
       (if map_of (metadata (h r)) ''sender'' = Some (Some em)
        then min 1 (profile_importance_score p + 0.01) else profile_importance_score p)"
    using persist_to_long_term_profile[where em = em and profiles = profiles and p = p,
        OF assms Cons.prems] by blast
  obtain rows' profiles' p' where 2:
    "persist_all None now h rs (rows1, profiles1) = Inr (rows', profiles')"
    "profiles' em = Some p'"
    "profile_importance_score p' =
          ((\<lambda>y. min 1 (y + 0.01))
             ^^ length (filter (\<lambda>r. map_of (metadata (h r)) ''sender'' = Some (Some em)) rs))
            (profile_importance_score p1)"
    using Cons.IH[where profiles = profiles1 and p = p1 and rows = rows1, OF 1(2)] by blast
  define f where "f = (\<lambda>y::real. min 1 (y + 0.01))"
  define cnt where
    "cnt = (\<lambda>rs. length (filter (\<lambda>r. map_of (metadata (h r)) ''sender'' = Some (Some em)) rs))"
  have a: "profile_importance_score p1 =
       (if map_of (metadata (h r)) ''sender'' = Some (Some em)
        then f (profile_importance_score p) else profile_importance_score p)"
    unfolding f_def by (rule 1(3))
  have b: "profile_importance_score p' = (f ^^ cnt rs) (profile_importance_score p1)"
    unfolding f_def cnt_def by (rule 2(3))
  have "profile_importance_score p' = (f ^^ cnt (r # rs)) (profile_importance_score p)"
    using a b by (simp add: cnt_def funpow_swap1)
  then have c: "profile_importance_score p' =
          ((\<lambda>y. min 1 (y + 0.01))
             ^^ length (filter (\<lambda>r. map_of (metadata (h r)) ''sender'' = Some (Some em)) (r # rs)))
            (profile_importance_score p)"
    unfolding f_def cnt_def .
  have "persist_all None now h (r # rs) (rows, profiles) = Inr (rows', profiles')"
    using 1(1) 2(1) by simp
  with 2(2) c show ?case
    by blast
qed

lemma nudged_at_most_1: "0 < n \<Longrightarrow> ((\<lambda>y. min 1 (y + 0.01)) ^^ n) (x::real) \<le> 1"
  by (cases n) simp_all

text \<open>
  C8, as the specification states it, fails: an importance of 1.5 given to
  \<open>store_interaction\<close> is the importance of the node it stores.
\<close>

theorem importance_counterexample:
  "importance_score (heap (run [Store ''a'' [] 1.5 (Inr None) 0] (init 0)) 0) = 1.5"
  by (simp add: store_interaction_no_embedding init_def)

text \<open>
  C8, amended. The importance of a stored node is the importance the caller gave,
  unchanged, and no operation changes the importance of a node that exists: nothing
  clamps it. So, in every state the system reaches by operations whose given importances
  are within [0,1], whatever the database held at the start, the importance of every node
  of the working tier is within [0,1]. The strength of every link, in the link lists of
  the nodes and in the adjacency index, is above 0.7. When a consolidation pass with the
  database working persists \<open>n\<close> nodes whose sender is \<open>em\<close>, and \<open>em\<close> has a profile,
  the importance of the profile afterwards is its importance before to which
  \<open>min 1 (y + 0.01)\<close> has been applied \<open>n\<close> times, which is at most 1 when \<open>n\<close> is not 0.
\<close>

theorem scores_as_given:
  assumes "s = run ops (init_with t0 rows profiles)"
    and "list_all importance_given_in_range ops"
    and "u' = snd (store_interaction message_id cont importance (Inr e) now u)"
    and "fst (fst (consolidate_memories (memory_controller v) (heap v) now' (working_memory v)
           (map snd (short_term_memory v)))) = to_persist"
    and "em \<noteq> []" and "sender_profiles v em = Some p"
    and "n = length (filter (\<lambda>r. map_of (metadata (heap v r)) ''sender'' = Some (Some em))
                 to_persist)"
  shows "(r \<in> set (working_memory s) \<longrightarrow>
           0 \<le> importance_score (heap s r) \<and> importance_score (heap s r) \<le> 1)
    \<and> ((k, c) \<in> set (connections (heap s r')) \<longrightarrow> 0.7 < c)
    \<and> ((k, c) \<in> set (memory_graph s a) \<longrightarrow> 0.7 < c)
    \<and> importance_score (heap u' (next_ref u)) = importance
    \<and> (r'' < next_ref w \<longrightarrow>
         importance_score (heap (step x w) r'') = importance_score (heap w r''))
    \<and> map_option profile_importance_score
         (sender_profiles (snd (consolidate_pass now' None v)) em)
         = Some (((\<lambda>y. min 1 (y + 0.01)) ^^ n) (profile_importance_score p))
    \<and> (0 < n \<longrightarrow> ((\<lambda>y. min 1 (y + 0.01)) ^^ n) (profile_importance_score p) \<le> 1)"
proof -
  have "working_in_range s"
    unfolding assms(1) by (rule working_in_range_run[OF working_in_range_init_with assms(2)])
  then have 1: "r \<in> set (working_memory s) \<longrightarrow>
           0 \<le> importance_score (heap s r) \<and> importance_score (heap s r) \<le> 1"
    by (simp add: working_in_range_def list_all_iff)
  have "links_above s"
    unfolding assms(1) by (rule links_above_run[OF links_above_init_with])
  then have 2: "(k, c) \<in> set (connections (heap s r')) \<longrightarrow> 0.7 < c"
    and 3: "(k, c) \<in> set (memory_graph s a) \<longrightarrow> 0.7 < c"
    by (simp_all add: links_above_def)
  have 4: "importance_score (heap u' (next_ref u)) = importance"
    unfolding assms(3) by (rule store_importance)
  have 5: "r'' < next_ref w \<longrightarrow>
         importance_score (heap (step x w) r'') = importance_score (heap w r'')"
    using step_importance_frame[of r'' w x] by simp
  obtain to_remove where cm:
    "consolidate_memories (memory_controller v) (heap v) now' (working_memory v)
       (map snd (short_term_memory v)) =
       ((to_persist, to_remove), (memory_controller v)\<lparr>last_consolidation := now'\<rparr>)"
    using assms(4) consolidate_memories_controller[of "memory_controller v" "heap v" now'
        "working_memory v" "map snd (short_term_memory v)"]
    by (cases "consolidate_memories (memory_controller v) (heap v) now' (working_memory v)
             (map snd (short_term_memory v))") auto
  obtain rows' profiles' p' where pa:
    "persist_all None now' (heap v) to_persist (long_term_table v, sender_profiles v)
       = Inr (rows', profiles')"
    "profiles' em = Some p'"
    "profile_importance_score p' =
       ((\<lambda>y. min 1 (y + 0.01)) ^^ n) (profile_importance_score p)"
    using persist_all_profile[where em = em and profiles = "sender_profiles v" and p = p
        and now = now' and h = "heap v" and rs = to_persist and rows = "long_term_table v",
        OF assms(5,6)]
    unfolding assms(7) by blast
  have "sender_profiles (snd (consolidate_pass now' None v)) = profiles'"
    by (simp add: consolidate_pass_def cm Let_def pa(1))
  then have 6: "map_option profile_importance_score
         (sender_profiles (snd (consolidate_pass now' None v)) em)
         = Some (((\<lambda>y. min 1 (y + 0.01)) ^^ n) (profile_importance_score p))"
    by (simp add: pa(2,3))
  have 7: "0 < n \<longrightarrow> ((\<lambda>y. min 1 (y + 0.01)) ^^ n) (profile_importance_score p) \<le> 1"
    using nudged_at_most_1[of n "profile_importance_score p"] by blast
  from 1 2 3 4 5 6 7 show ?thesis
    by blast
qed

text \<open>
  Two interactions stored with the embeddings (1, 0) and (4, 3), whose cosine similarity
  is 0.8, then a consolidation pass: the two nodes are linked with strength 0.8. And a
  state whose one short-term node, of importance 0.9, comes from a sender with a profile
  of importance 0.995, under a controller made with \<open>short_term_size = 0\<close>: the pass
  persists the node and the profile importance becomes 1.
\<close>

definition c8_ops :: "op list" where
  "c8_ops = [Store ''a'' [] 0.5 (Inr (Some [1, 0])) 0, Store ''b'' [] 0.25 (Inr (Some [4, 3])) 1,
     Consolidate 2 None]"

definition c8_system :: system where
  "c8_system = \<lparr>heap = (\<lambda>_. empty_node)(0 := empty_node\<lparr>node_id := ''mem_m'',
       importance_score := 0.9, metadata := [(''sender'', Some ''x@y'')]\<rparr>),
     next_ref = 1,
     memory_controller = \<lparr>working_memory_size = 20, short_term_size = 0,
       consolidation_interval = 300, last_consolidation = 0\<rparr>,
     working_memory = [], short_term_memory = [(''mem_m'', 0)],
     memory_graph = (\<lambda>_. []), long_term_table = [],
     sender_profiles = (\<lambda>_. None)(''x@y'' \<mapsto>
       \<lparr>total_messages = 3, last_interaction = 0, profile_importance_score = 0.995\<rparr>)\<rparr>"

lemma sqrt_25: "sqrt 25 = 5"
  by (rule real_sqrt_unique) simp_all

lemma c8_run_state:
  "working_memory (run c8_ops (init_with 0 [] (\<lambda>_. None))) = [0, 1]"
  "connections (heap (run c8_ops (init_with 0 [] (\<lambda>_. None))) 0) = [(''mem_b'', 0.8)]"
  "memory_graph (run c8_ops (init_with 0 [] (\<lambda>_. None))) ''mem_b'' = [(''mem_a'', 0.8)]"
  "importance_score (heap (run c8_ops (init_with 0 [] (\<lambda>_. None))) 1) = 0.25"
  "importance_score (heap (run c8_ops (init_with 0 [] (\<lambda>_. None))) (Suc 0)) = 0.25"
  by (simp_all add: c8_ops_def consolidate_pass_frame store_interaction_def
      update_memory_connections_def link_step_def cosine_similarity_def add_link_def Let_def
      init_with_def deque_append_def working_maxlen_def linalg_norm_def np_dot_def sqrt_25)

lemma c8_to_persist:
  "fst (fst (consolidate_memories (memory_controller c8_system) (heap c8_system) 9
     (working_memory c8_system) (map snd (short_term_memory c8_system)))) = [0]"
  by (simp add: c8_system_def consolidate_memories_def short_term_sorted_def to_short_term_def
      sorted_desc_def should_persist_def empty_node_def)

theorem scores_as_given_witness:
  "list_all importance_given_in_range c8_ops
   \<and> 1 \<in> set (working_memory (run c8_ops (init_with 0 [] (\<lambda>_. None))))
   \<and> importance_score (heap (run c8_ops (init_with 0 [] (\<lambda>_. None))) 1) = 0.25
   \<and> (''mem_b'', 0.8) \<in> set (connections (heap (run c8_ops (init_with 0 [] (\<lambda>_. None))) 0))
   \<and> (''mem_a'', 0.8) \<in> set (memory_graph (run c8_ops (init_with 0 [] (\<lambda>_. None))) ''mem_b'')
   \<and> importance_score (heap (snd (store_interaction ''c'' [] 0.75 (Inr None) 3 c8_system))
        (next_ref c8_system)) = 0.75
   \<and> map_option profile_importance_score
        (sender_profiles (snd (consolidate_pass 9 None c8_system)) ''x@y'') = Some 1"
proof -
  have l: "list_all importance_given_in_range c8_ops"
    by (simp add: c8_ops_def)
  have em: "''x@y'' \<noteq> []"
    by simp
  have p: "sender_profiles c8_system ''x@y'' =
      Some \<lparr>total_messages = 3, last_interaction = 0, profile_importance_score = 0.995\<rparr>"
    by (simp add: c8_system_def)
  have n: "Suc 0 = length (filter (\<lambda>r. map_of (metadata (heap c8_system r)) ''sender''
      = Some (Some ''x@y'')) [0])"
    by (simp add: c8_system_def)
  from scores_as_given[where r = 1 and r' = 0 and k = "''mem_b''" and c = "0.8" and a = "''x''"
      and x = "Consolidate 0 None" and w = c8_system and r'' = 0
      and ops = c8_ops and ?t0.0 = 0 and rows = "[]" and profiles = "\<lambda>_. None"
      and message_id = "''c''" and cont = "[]" and importance = "0.75" and e = None and now = 3
      and u = c8_system,
      OF refl l refl c8_to_persist em p n]
    l
  show ?thesis
    by (simp add: c8_run_state)
qed


end
